(* ===== verification/Prelude.thy ===== *)
theory Prelude
  imports Main "HOL-Library.List_Lexorder" "HOL-Library.Char_ord"
begin

text \<open>
  Shared vocabulary of the development: the names of the model's types, the
  collection \<open>job_simps\<close> of evaluation rules that the witnesses use, Python's
  string order (lexicographic on code points, a proper prefix first, which is
  \<open>List_Lexorder\<close> over \<open>Char_ord\<close>), and decimal printing of naturals as
  Python's \<open>str(n)\<close> and \<open>'%0kd' % n\<close> do it, with the lemmas that relate the
  printed digits to the numbers; and two facts on sorted lists (the head is
  the minimum, the last element the maximum).
\<close>

named_theorems job_simps "evaluation rules of the job model"

type_synonym symbol = string
type_synonym asset_name = string
type_synonym color = string

section \<open>Python's error values\<close>

text \<open>The exceptions the program can raise, as values (\<open>Inl\<close> of a sum).\<close>

datatype error =
    ValueError string
  | KeyError string
  | IndexError
  | ProviderError string

section \<open>Decimal digits\<close>

definition digit_char :: "nat \<Rightarrow> char" where
  "digit_char d = char_of (48 + d)"

text \<open>
  \<open>digits_fixed k n\<close>: the last \<open>k\<close> decimal digits of \<open>n\<close>, most significant first
  (leading zeros kept).
\<close>

fun digits_fixed :: "nat \<Rightarrow> nat \<Rightarrow> string" where
  "digits_fixed 0 n = []"
| "digits_fixed (Suc k) n = digits_fixed k (n div 10) @ [digit_char (n mod 10)]"

text \<open>The number of decimal digits of \<open>n\<close> (one for zero).\<close>

fun ndigits :: "nat \<Rightarrow> nat" where
  "ndigits n = (if n < 10 then 1 else Suc (ndigits (n div 10)))"

declare ndigits.simps [simp del]

text \<open>\<open>'%0kd' % n\<close>: at least \<open>k\<close> digits, zero-padded; \<open>str(n)\<close> is \<open>zpad 0\<close>.\<close>

definition zpad :: "nat \<Rightarrow> nat \<Rightarrow> string" where
  "zpad k n = digits_fixed (max k (ndigits n)) n"

abbreviation show_nat :: "nat \<Rightarrow> string" where
  "show_nat n \<equiv> zpad 0 n"

text \<open>Reading a string of digits back (the inverse of the printers).\<close>

definition digit_val :: "char \<Rightarrow> nat" where
  "digit_val c = of_char c - 48"

definition read_digits :: "string \<Rightarrow> nat" where
  "read_digits s = foldl (\<lambda>acc c. 10 * acc + digit_val c) 0 s"

section \<open>Lemmas on digits\<close>

lemma digit_char_less_iff [simp]:
  "a < 10 \<Longrightarrow> b < 10 \<Longrightarrow> digit_char a < digit_char b \<longleftrightarrow> a < b"
  by (simp add: digit_char_def less_char_def)

lemma of_char_digit_char [simp]: "d < 10 \<Longrightarrow> of_char (digit_char d) = 48 + d"
  by (simp add: digit_char_def)

lemma digit_char_inj [simp]:
  "a < 10 \<Longrightarrow> b < 10 \<Longrightarrow> digit_char a = digit_char b \<longleftrightarrow> a = b"
  by (metis of_char_digit_char add_left_cancel)

lemma digit_val_digit_char [simp]: "d < 10 \<Longrightarrow> digit_val (digit_char d) = d"
  by (simp add: digit_val_def digit_char_def)

lemma length_digits_fixed [simp]: "length (digits_fixed k n) = k"
  by (induction k arbitrary: n) auto

lemma digits_fixed_mod: "digits_fixed k (n mod 10 ^ k) = digits_fixed k n"
proof (induction k arbitrary: n)
  case 0
  then show ?case by simp
next
  case (Suc k)
  have "n mod 10 ^ Suc k div 10 = (n div 10) mod 10 ^ k"
    by (simp add: mod_mult2_eq div_mult2_eq mult.commute)
  moreover have "n mod 10 ^ Suc k mod 10 = n mod 10"
    by (simp add: mod_mod_cancel)
  ultimately show ?case using Suc.IH by simp
qed

lemma read_digits_append_digit:
  "d < 10 \<Longrightarrow> read_digits (s @ [digit_char d]) = 10 * read_digits s + d"
  by (simp add: read_digits_def)

lemma read_digits_fixed [simp]: "read_digits (digits_fixed k n) = n mod 10 ^ k"
proof (induction k arbitrary: n)
  case 0
  then show ?case by (simp add: read_digits_def)
next
  case (Suc k)
  have "read_digits (digits_fixed (Suc k) n) = 10 * ((n div 10) mod 10 ^ k) + n mod 10"
    by (simp add: read_digits_append_digit Suc.IH)
  also have "\<dots> = n mod 10 ^ Suc k"
    by (simp add: mod_mult2_eq mult.commute)
  finally show ?case .
qed

lemma ndigits_bound: "n < 10 ^ ndigits n"
proof (induction n rule: ndigits.induct)
  case (1 n)
  then show ?case
    by (subst ndigits.simps) (auto simp: less_mult_imp_div_less mult.commute)
qed

lemma ndigits_le: "n < 10 ^ k \<Longrightarrow> 0 < k \<Longrightarrow> ndigits n \<le> k"
proof (induction n arbitrary: k rule: ndigits.induct)
  case (1 n)
  show ?case
  proof (cases "n < 10")
    case True
    with "1.prems" show ?thesis by (simp add: ndigits.simps)
  next
    case False
    obtain j where k: "k = Suc j"
      using "1.prems" by (cases k) auto
    have "0 < j"
    proof (rule ccontr)
      assume "\<not> 0 < j"
      with k "1.prems" have "n < 10" by simp
      with False show False by simp
    qed
    with "1.prems" k have "n div 10 < 10 ^ j"
      by (simp add: div_less_iff_less_mult mult.commute)
    with False "1.IH" \<open>0 < j\<close> have "ndigits (n div 10) \<le> j" by simp
    with False k show ?thesis by (simp add: ndigits.simps)
  qed
qed

lemma zpad_fixed [simp]: "n < 10 ^ k \<Longrightarrow> 0 < k \<Longrightarrow> zpad k n = digits_fixed k n"
  by (simp add: zpad_def ndigits_le max_absorb1)

lemma read_zpad [simp]: "read_digits (zpad k n) = n"
proof -
  have "n < 10 ^ max k (ndigits n)"
  proof -
    have "(10::nat) ^ ndigits n \<le> 10 ^ max k (ndigits n)"
      by (rule power_increasing) simp_all
    with ndigits_bound [of n] show ?thesis by (rule less_le_trans)
  qed
  then show ?thesis by (simp add: zpad_def)
qed

lemma read_digits_foldl:
  "foldl (\<lambda>acc c. 10 * acc + digit_val c) acc t = acc * 10 ^ length t + read_digits t"
proof (induction t arbitrary: acc rule: rev_induct)
  case Nil
  then show ?case by (simp add: read_digits_def)
next
  case (snoc c t)
  have "read_digits (t @ [c]) = 10 * read_digits t + digit_val c" by (simp add: read_digits_def)
  with snoc show ?case by (simp add: algebra_simps)
qed

lemma read_digits_append: "read_digits (s @ t) = read_digits s * 10 ^ length t + read_digits t"
proof -
  have "read_digits (s @ t) = foldl (\<lambda>acc c. 10 * acc + digit_val c) (read_digits s) t"
    by (simp add: read_digits_def)
  also have "\<dots> = read_digits s * 10 ^ length t + read_digits t"
    by (rule read_digits_foldl)
  finally show ?thesis .
qed

lemma read_digits_zeros [simp]: "read_digits (replicate k (CHR ''0'')) = 0"
proof (induction k)
  case 0
  then show ?case by (simp add: read_digits_def)
next
  case (Suc k)
  have "replicate (Suc k) (CHR ''0'') = replicate k (CHR ''0'') @ [CHR ''0'']"
    by (simp add: replicate_append_same)
  with Suc show ?case by (simp add: read_digits_append read_digits_def digit_val_def)
qed

lemma digits_fixed_chars:
  "c \<in> set (digits_fixed k n) \<Longrightarrow> (48::nat) \<le> of_char c \<and> of_char c \<le> (57::nat)"
proof (induction k arbitrary: n)
  case 0
  then show ?case by simp
next
  case (Suc k)
  then show ?case by (auto simp: digit_char_def)
qed

lemma zpad_chars: "c \<in> set (zpad k n) \<Longrightarrow> (48::nat) \<le> of_char c \<and> of_char c \<le> (57::nat)"
  by (simp add: zpad_def digits_fixed_chars)

lemma zpad_nonempty: "zpad k n \<noteq> []"
proof -
  have "0 < ndigits n" by (simp add: ndigits.simps)
  then show ?thesis by (simp add: zpad_def flip: length_greater_0_conv)
qed

text \<open>Evaluation of the printers on numerals, by the simplifier.\<close>

lemma digits_fixed_numeral:
  "digits_fixed (numeral k) n = digits_fixed (pred_numeral k) (n div 10) @ [digit_char (n mod 10)]"
  by (simp only: numeral_eq_Suc digits_fixed.simps)

lemmas digit_eval [job_simps] = digits_fixed_numeral digit_char_def char_of_def bit_0 ndigits.simps zpad_def

section \<open>Lexicographic order on equal-length strings\<close>

lemma less_append_same_length:
  "length xs = length ys \<Longrightarrow> (xs @ us < ys @ vs) \<longleftrightarrow> xs < ys \<or> (xs = ys \<and> us < vs)"
  for xs ys us vs :: "'a::linorder list"
proof (induction xs ys rule: list_induct2)
  case Nil
  then show ?case by simp
next
  case (Cons x xs y ys)
  then show ?case by auto
qed

lemma less_same_length_asym:
  "length xs = length ys \<Longrightarrow> xs < ys \<Longrightarrow> xs \<noteq> ys"
  for xs ys :: "'a::linorder list"
  by auto

lemma lex10: "(r1::nat) < 10 \<Longrightarrow> r2 < 10 \<Longrightarrow> 10 * q1 + r1 < 10 * q2 + r2 \<longleftrightarrow> q1 < q2 \<or> q1 = q2 \<and> r1 < r2"
  by presburger

lemma nat_less_div_mod_10:
  "(n::nat) < m \<longleftrightarrow> n div 10 < m div 10 \<or> (n div 10 = m div 10 \<and> n mod 10 < m mod 10)"
  using lex10 [of "n mod 10" "m mod 10" "n div 10" "m div 10"] by simp

text \<open>Fixed-width decimal strings compare as the numbers do.\<close>

lemma digits_fixed_less_iff:
  "n < 10 ^ k \<Longrightarrow> m < 10 ^ k \<Longrightarrow> digits_fixed k n < digits_fixed k m \<longleftrightarrow> n < m"
proof (induction k arbitrary: n m)
  case 0
  then show ?case by simp
next
  case (Suc k)
  have n': "n div 10 < 10 ^ k" and m': "m div 10 < 10 ^ k"
    using Suc.prems by (simp_all add: div_less_iff_less_mult mult.commute)
  have eq: "digits_fixed k (n div 10) = digits_fixed k (m div 10) \<longleftrightarrow> n div 10 = m div 10"
  proof
    assume s: "digits_fixed k (n div 10) = digits_fixed k (m div 10)"
    show "n div 10 = m div 10"
    proof (rule ccontr)
      assume "n div 10 \<noteq> m div 10"
      then have "n div 10 < m div 10 \<or> m div 10 < n div 10" by arith
      with Suc.IH [OF n' m'] Suc.IH [OF m' n'] s show False by auto
    qed
  qed simp
  have "digits_fixed (Suc k) n < digits_fixed (Suc k) m \<longleftrightarrow>
        n div 10 < m div 10 \<or> (n div 10 = m div 10 \<and> n mod 10 < m mod 10)"
    using Suc.IH [OF n' m'] eq by (simp add: less_append_same_length)
  also have "\<dots> \<longleftrightarrow> n < m"
    by (rule nat_less_div_mod_10 [symmetric])
  finally show ?case .
qed

lemma digits_fixed_inj:
  "n < 10 ^ k \<Longrightarrow> m < 10 ^ k \<Longrightarrow> digits_fixed k n = digits_fixed k m \<longleftrightarrow> n = m"
  by (metis digits_fixed_less_iff less_irrefl linorder_neqE_nat)


lemma sorted_hd_Min: "sorted xs \<Longrightarrow> xs \<noteq> [] \<Longrightarrow> hd xs = Min (set xs)"
  by (cases xs) (auto intro: Min_eqI [symmetric])

lemma sorted_last_Max: "sorted xs \<Longrightarrow> xs \<noteq> [] \<Longrightarrow> last xs = Max (set xs)"
proof (induction xs)
  case Nil
  then show ?case by simp
next
  case (Cons x xs)
  show ?case
  proof (cases "xs = []")
    case True
    then show ?thesis by simp
  next
    case False
    with Cons have "last xs = Max (set xs)" by simp
    moreover have "x \<le> Max (set xs)" using Cons.prems False by (auto intro: Max_ge_iff [THEN iffD2])
    ultimately show ?thesis using False by (simp add: max_def)
  qed
qed

lemma digits_fixed_ndigits_hd:
  "0 < n \<Longrightarrow> hd (digits_fixed (ndigits n) n) \<noteq> CHR ''0''"
proof (induction n rule: ndigits.induct)
  case (1 n)
  show ?case
  proof (cases "n < 10")
    case True
    then have "ndigits n = Suc 0" by (subst ndigits.simps) simp
    with True have "digits_fixed (ndigits n) n = [digit_char n]" by simp
    moreover have "of_char (digit_char n) \<noteq> (of_char (CHR ''0'') :: nat)"
      using True "1.prems" by (simp add: of_char_digit_char)
    ultimately show ?thesis by auto
  next
    case False
    then have nd: "ndigits n = Suc (ndigits (n div 10))" by (subst ndigits.simps) simp
    have pos: "0 < n div 10" using False by simp
    have "0 < ndigits (n div 10)" by (subst ndigits.simps) simp
    then have "digits_fixed (ndigits (n div 10)) (n div 10) \<noteq> []"
      by (metis length_digits_fixed length_0_conv not_less0)
    with nd have "hd (digits_fixed (ndigits n) n) = hd (digits_fixed (ndigits (n div 10)) (n div 10))"
      by simp
    with "1.IH" [OF False pos] show ?thesis by simp
  qed
qed

lemma show_nat_no_leading_zero: "show_nat n = ''0'' \<or> hd (show_nat n) \<noteq> CHR ''0''"
proof (cases "n = 0")
  case True
  have "ndigits 0 = Suc 0" by (subst ndigits.simps) simp
  with True show ?thesis by (simp add: zpad_def digit_char_def)
next
  case False
  then show ?thesis using digits_fixed_ndigits_hd [of n] by (simp add: zpad_def)
qed

lemma count_list_distinct: "distinct xs \<Longrightarrow> x \<in> set xs \<Longrightarrow> count_list xs x = 1"
  by (induction xs) (auto simp: count_notin)

end
