(* ===== verification/Dates.thy ===== *)
theory Dates
  imports Prelude "HOL-Library.Product_Lexorder"
begin

text \<open>
  Dates and times of \<^verbatim>\<open>src/fetch_data.py\<close>: Python's \<open>datetime\<close> (also the
  shape of a pandas \<open>Timestamp\<close> of the price index) as a record; the start of
  the download window \<open>datetime(end_date.year - 5, 1, 1)\<close> (line 45), which
  raises \<open>ValueError\<close> with CPython's message below year 1; and the three printers the program uses:
  \<open>str(date)\<close> (line 47), \<open>strftime("%Y-%m-%d")\<close> (line 62) and
  \<open>datetime.isoformat()\<close> (line 74). The main lemma says that date strings
  compare as strings exactly as the dates compare in time, which is what makes
  the program's string sort a chronological sort; a reader of date strings
  shows that they determine the date (C27).
\<close>

record datetime =
  dt_year :: nat
  dt_month :: nat
  dt_day :: nat
  dt_hour :: nat
  dt_minute :: nat
  dt_second :: nat
  dt_microsecond :: nat

definition is_leap :: "nat \<Rightarrow> bool" where
  "is_leap y \<longleftrightarrow> 4 dvd y \<and> (\<not> 100 dvd y \<or> 400 dvd y)"

definition days_in_month :: "nat \<Rightarrow> nat \<Rightarrow> nat" where
  "days_in_month y m =
     (if m = 2 then (if is_leap y then 29 else 28)
      else if m \<in> {4, 6, 9, 11} then 30 else 31)"

text \<open>The invariant of Python's \<open>datetime\<close> (\<open>MINYEAR = 1\<close>, \<open>MAXYEAR = 9999\<close>).\<close>

definition valid_datetime :: "datetime \<Rightarrow> bool" where
  "valid_datetime t \<longleftrightarrow>
     1 \<le> dt_year t \<and> dt_year t \<le> 9999 \<and> 1 \<le> dt_month t \<and> dt_month t \<le> 12 \<and>
     1 \<le> dt_day t \<and> dt_day t \<le> days_in_month (dt_year t) (dt_month t) \<and>
     dt_hour t < 24 \<and> dt_minute t < 60 \<and> dt_second t < 60 \<and> dt_microsecond t < 1000000"

text \<open>Chronological order: the fields compared lexicographically.\<close>

definition dt_key :: "datetime \<Rightarrow> nat \<times> nat \<times> nat \<times> nat \<times> nat \<times> nat \<times> nat" where
  "dt_key t = (dt_year t, dt_month t, dt_day t, dt_hour t, dt_minute t, dt_second t, dt_microsecond t)"

definition date_key :: "datetime \<Rightarrow> nat \<times> nat \<times> nat" where
  "date_key t = (dt_year t, dt_month t, dt_day t)"

definition midnight :: "nat \<Rightarrow> nat \<Rightarrow> nat \<Rightarrow> datetime" where
  "midnight y m d = \<lparr>dt_year = y, dt_month = m, dt_day = d, dt_hour = 0, dt_minute = 0,
                      dt_second = 0, dt_microsecond = 0\<rparr>"

section \<open>The download window (line 45)\<close>

text \<open>
  \<open>datetime(end_date.year - 5, 1, 1)\<close>; the constructor rejects a year below
  \<open>MINYEAR\<close> with \<open>ValueError("year %i is out of range")\<close>, the year being
  \<open>end_date.year - 5\<close> (zero or negative).
\<close>

definition year_error :: "nat \<Rightarrow> string" where
  "year_error y = ''year '' @ (if y < 5 then ''-'' else []) @ show_nat (5 - y) @ '' is out of range''"

definition start_date_of :: "datetime \<Rightarrow> error + datetime" where
  "start_date_of end_date =
     (if int (dt_year end_date) - 5 < 1 then Inl (ValueError (year_error (dt_year end_date)))
      else Inr (midnight (dt_year end_date - 5) 1 1))"

section \<open>Printers\<close>

text \<open>\<open>str(d.date())\<close> and \<open>d.strftime("%Y-%m-%d")\<close>: \<open>'%04d-%02d-%02d'\<close>.\<close>

definition ymd_string :: "datetime \<Rightarrow> string" where
  "ymd_string t = zpad 4 (dt_year t) @ ''-'' @ zpad 2 (dt_month t) @ ''-'' @ zpad 2 (dt_day t)"

text \<open>
  \<open>datetime.isoformat()\<close>: \<open>YYYY-MM-DDTHH:MM:SS\<close>, followed by \<open>.ffffff\<close> only
  when the microsecond is not zero.
\<close>

definition isoformat :: "datetime \<Rightarrow> string" where
  "isoformat t =
     ymd_string t @ ''T'' @ zpad 2 (dt_hour t) @ '':'' @ zpad 2 (dt_minute t) @ '':'' @
     zpad 2 (dt_second t) @
     (if dt_microsecond t = 0 then [] else ''.'' @ zpad 6 (dt_microsecond t))"

text \<open>Reading a \<open>"%Y-%m-%d"\<close> string back, as a consumer of the output does.\<close>

definition read_ymd :: "string \<Rightarrow> nat \<times> nat \<times> nat" where
  "read_ymd s = (read_digits (take 4 s), read_digits (take 2 (drop 5 s)), read_digits (drop 8 s))"

lemmas date_simps [job_simps] = start_date_of_def year_error_def midnight_def ymd_string_def isoformat_def
  days_in_month_def is_leap_def valid_datetime_def

section \<open>Lemmas\<close>

lemma days_in_month_le: "days_in_month y m \<le> 31"
  by (simp add: days_in_month_def)

lemma valid_datetime_bounds:
  "valid_datetime t \<Longrightarrow> dt_year t < 10 ^ 4 \<and> dt_month t < 10 ^ 2 \<and> dt_day t < 10 ^ 2"
  using days_in_month_le [of "dt_year t" "dt_month t"] by (simp add: valid_datetime_def)

lemma ymd_string_digits:
  assumes "valid_datetime t"
  shows "ymd_string t = digits_fixed 4 (dt_year t) @ ''-'' @ digits_fixed 2 (dt_month t) @ ''-'' @
                        digits_fixed 2 (dt_day t)"
  using valid_datetime_bounds [OF assms] by (simp add: ymd_string_def)

lemma length_ymd_string: "valid_datetime t \<Longrightarrow> length (ymd_string t) = 10"
  by (simp add: ymd_string_digits)

text \<open>
  Date strings compare as the dates do: the fields have fixed width, so the
  lexicographic order of the strings is the lexicographic order of the fields.
\<close>

lemma ymd_string_less_iff:
  assumes "valid_datetime a" and "valid_datetime b"
  shows "ymd_string a < ymd_string b \<longleftrightarrow> date_key a < date_key b"
proof -
  note ba = valid_datetime_bounds [OF assms(1)] and bb = valid_datetime_bounds [OF assms(2)]
  have y: "digits_fixed 4 (dt_year a) = digits_fixed 4 (dt_year b) \<longleftrightarrow> dt_year a = dt_year b"
    using ba bb by (simp add: digits_fixed_inj)
  have m: "digits_fixed 2 (dt_month a) = digits_fixed 2 (dt_month b) \<longleftrightarrow> dt_month a = dt_month b"
    using ba bb by (simp add: digits_fixed_inj)
  show ?thesis
    using ba bb y m
    by (simp add: ymd_string_digits assms less_append_same_length digits_fixed_less_iff
        date_key_def less_prod_def) auto
qed

lemma ymd_string_inj:
  assumes "valid_datetime a" and "valid_datetime b"
  shows "ymd_string a = ymd_string b \<longleftrightarrow> date_key a = date_key b"
  using ymd_string_less_iff [OF assms] ymd_string_less_iff [OF assms(2,1)]
  by (metis less_irrefl linorder_neqE)

lemma start_date_of_Inr:
  "start_date_of e = Inr s \<longleftrightarrow> 6 \<le> dt_year e \<and> s = midnight (dt_year e - 5) 1 1"
  by (auto simp: start_date_of_def)

lemma start_date_of_Inl:
  "start_date_of e = Inl err \<longleftrightarrow> dt_year e < 6 \<and> err = ValueError (year_error (dt_year e))"
  by (auto simp: start_date_of_def)

lemma valid_midnight_jan1: "1 \<le> y \<Longrightarrow> y \<le> 9999 \<Longrightarrow> valid_datetime (midnight y 1 1)"
  by (simp add: valid_datetime_def midnight_def days_in_month_def)


lemma isoformat_chars:
  "c \<in> set (isoformat t) \<Longrightarrow>
   ((48::nat) \<le> of_char c \<and> of_char c \<le> (57::nat)) \<or> c \<in> {CHR ''-'', CHR ''T'', CHR '':'', CHR ''.''}"
  by (auto simp: isoformat_def ymd_string_def split: if_splits dest: zpad_chars)


text \<open>
  C27. The date strings of lines 62 and 47 read back as the date: for a
  valid \<open>datetime\<close>, parsing \<open>strftime("%Y-%m-%d")\<close> gives its year, month
  and day.
\<close>

theorem read_ymd_ymd_string:
  assumes "valid_datetime t"
  shows "read_ymd (ymd_string t) = date_key t"
  using valid_datetime_bounds [OF assms]
  by (simp add: read_ymd_def ymd_string_digits [OF assms] date_key_def length_digits_fixed)

theorem read_ymd_ymd_string_witness:
  "valid_datetime (midnight 2024 2 29) \<and> read_ymd (ymd_string (midnight 2024 2 29)) = (2024, 2, 29)"
proof -
  have v: "valid_datetime (midnight 2024 2 29)"
    by (simp add: valid_datetime_def midnight_def days_in_month_def is_leap_def)
  from read_ymd_ymd_string [OF v] v show ?thesis by (simp add: date_key_def midnight_def)
qed

end
