(* ===== verification/Prices.thy ===== *)
theory Prices
  imports Prelude
begin

text \<open>
  Price values of \<^verbatim>\<open>src/fetch_data.py\<close>. A cell of the provider's frame is a
  Python float (an IEEE double: a finite value \<open>m * 2^e\<close>, an infinity or NaN)
  or \<open>None\<close>. Line 66 keeps a value unless it is \<open>None\<close> or unequal to itself
  (NaN); line 67 stores \<open>round(float(price), 4)\<close>. CPython rounds a float to
  \<open>n\<close> decimals exactly, half to even, on its binary value, and returns the
  double nearest to the decimal result; the model keeps that decimal as the
  integer count of \<open>10^-4\<close> units (\<open>Dec4\<close>). \<open>json.dump\<close> prints the float
  with \<open>repr\<close>: \<open>repr_dec4\<close> writes it, and \<open>read_dec4\<close> reads it back.
\<close>

datatype pyfloat = PyFinite int int | PyInf bool | PyNaN

datatype pyval = VFloat pyfloat | VNone

text \<open>The float the program writes: \<open>Dec4 n\<close> is \<open>n / 10^4\<close>.\<close>

datatype jnum = Dec4 int | JInf bool | JNaN

text \<open>Python's \<open>x != x\<close> on floats: true for NaN only.\<close>

fun float_ne_self :: "pyfloat \<Rightarrow> bool" where
  "float_ne_self PyNaN = True"
| "float_ne_self _ = False"

lemma float_ne_self_iff [simp]: "float_ne_self x \<longleftrightarrow> x = PyNaN"
  by (cases x) auto

text \<open>\<open>a / b\<close> rounded to an integer, ties to even (\<open>b > 0\<close>).\<close>

definition round_half_even_div :: "int \<Rightarrow> int \<Rightarrow> int" where
  "round_half_even_div a b =
     (let q = a div b; r = a mod b in
      if 2 * r < b then q
      else if 2 * r > b then q + 1
      else if even q then q else q + 1)"

text \<open>\<open>round(x, 4)\<close> (line 67); infinities and NaN come back unchanged.\<close>

fun round4 :: "pyfloat \<Rightarrow> jnum" where
  "round4 (PyFinite m e) =
     Dec4 (if 0 \<le> e then m * 2 ^ nat e * 10000
           else round_half_even_div (m * 10000) (2 ^ nat (- e)))"
| "round4 (PyInf s) = JInf s"
| "round4 PyNaN = JNaN"

section \<open>Printing a rounded price\<close>

definition strip_zeros :: "string \<Rightarrow> string" where
  "strip_zeros s = rev (dropWhile (\<lambda>c. c = CHR ''0'') (rev s))"

text \<open>
  \<open>repr\<close> of the float \<open>n / 10^4\<close>: integer part, a point, the four decimals
  without trailing zeros but at least one digit.
\<close>

definition repr_dec4 :: "int \<Rightarrow> string" where
  "repr_dec4 n =
     (let a = nat \<bar>n\<bar>; frac = strip_zeros (digits_fixed 4 (a mod 10000)) in
      (if n < 0 then ''-'' else []) @ show_nat (a div 10000) @ ''.'' @
      (if frac = [] then ''0'' else frac))"

fun repr_jnum :: "jnum \<Rightarrow> string" where
  "repr_jnum (Dec4 n) = repr_dec4 n"
| "repr_jnum (JInf s) = (if s then ''-Infinity'' else ''Infinity'')"
| "repr_jnum JNaN = ''NaN''"

text \<open>Reading a decimal \<open>[-]ddd.ffff\<close> back, as a count of \<open>10^-4\<close> units.\<close>

definition read_udec4 :: "string \<Rightarrow> nat" where
  "read_udec4 s =
     (let ip = takeWhile (\<lambda>c. c \<noteq> CHR ''.'') s;
          fp = drop 1 (dropWhile (\<lambda>c. c \<noteq> CHR ''.'') s)
      in read_digits ip * 10000 + read_digits fp * 10 ^ (4 - length fp))"

definition read_dec4 :: "string \<Rightarrow> int" where
  "read_dec4 s =
     (case s of c # t \<Rightarrow> if c = CHR ''-'' then - int (read_udec4 t) else int (read_udec4 s)
      | [] \<Rightarrow> 0)"

lemmas price_simps [job_simps] = round_half_even_div_def repr_dec4_def strip_zeros_def
  read_udec4_def read_dec4_def

section \<open>Lemmas on rounding\<close>

lemma round_half_even_div_bound:
  assumes "0 < b"
  shows "\<bar>2 * (a - b * round_half_even_div a b)\<bar> \<le> b"
proof -
  define q r where "q = a div b" and "r = a mod b"
  have a: "a - b * q = r"
    by (simp add: q_def r_def minus_div_mult_eq_mod [symmetric] mult.commute)
  have r: "0 \<le> r" "r < b"
    using assms by (simp_all add: r_def)
  have down: "\<bar>2 * (a - b * q)\<bar> \<le> b" if "2 * r \<le> b"
    using a r that by simp
  have up: "\<bar>2 * (a - b * (q + 1))\<bar> \<le> b" if "b \<le> 2 * r"
  proof -
    have "a - b * (q + 1) = r - b" using a by (simp add: algebra_simps)
    then show ?thesis using r that by simp
  qed
  have "round_half_even_div a b = q \<and> 2 * r \<le> b \<or> round_half_even_div a b = q + 1 \<and> b \<le> 2 * r"
    by (auto simp: round_half_even_div_def Let_def q_def [symmetric] r_def [symmetric])
  then show ?thesis using down up by auto
qed

lemma round_half_even_div_exact:
  "0 < b \<Longrightarrow> round_half_even_div (b * k) b = k"
  by (simp add: round_half_even_div_def)

lemma round_half_even_div_tie:
  assumes "0 < b" and "a = b * q + r" and "2 * r = b"
  shows "round_half_even_div a b = (if even q then q else q + 1)"
proof -
  have "0 \<le> r" "r < b" using assms by auto
  then have "a div b = q" "a mod b = r"
    using assms(2) by (simp_all add: div_add1_eq mult.commute)
  then show ?thesis using assms(3) by (simp add: round_half_even_div_def)
qed

section \<open>Lemmas on printing\<close>

lemma strip_zeros_append: "\<exists>k. s = strip_zeros s @ replicate k (CHR ''0'')"
proof -
  let ?P = "\<lambda>c. c = CHR ''0''"
  have "takeWhile ?P (rev s) = replicate (length (takeWhile ?P (rev s))) (CHR ''0'')"
    by (rule replicate_length_same [symmetric]) (auto dest: set_takeWhileD)
  then obtain k where t: "takeWhile ?P (rev s) = replicate k (CHR ''0'')" by blast
  have "s = rev (takeWhile ?P (rev s) @ dropWhile ?P (rev s))"
    by (simp only: takeWhile_dropWhile_id rev_rev_ident)
  also have "\<dots> = strip_zeros s @ replicate k (CHR ''0'')"
    by (simp only: rev_append t rev_replicate strip_zeros_def)
  finally show ?thesis by blast
qed

lemma read_strip_zeros:
  "read_digits (strip_zeros s) * 10 ^ (length s - length (strip_zeros s)) = read_digits s"
proof -
  obtain k where s: "s = strip_zeros s @ replicate k (CHR ''0'')"
    using strip_zeros_append by blast
  then have "length s - length (strip_zeros s) = k"
    by (metis add_diff_cancel_left' length_append length_replicate)
  moreover have "read_digits s = read_digits (strip_zeros s) * 10 ^ k"
    by (subst s) (simp add: read_digits_append)
  ultimately show ?thesis by simp
qed

lemma strip_zeros_no_dot: "CHR ''.'' \<notin> set s \<Longrightarrow> CHR ''.'' \<notin> set (strip_zeros s)"
  by (auto simp: strip_zeros_def dest: set_dropWhileD)

lemma length_strip_zeros: "length (strip_zeros s) \<le> length s"
  by (metis strip_zeros_def length_rev length_dropWhile_le)

lemma strip_zeros_digits_chars:
  "c \<in> set (strip_zeros (digits_fixed k n)) \<Longrightarrow> (48::nat) \<le> of_char c \<and> of_char c \<le> (57::nat)"
proof -
  assume "c \<in> set (strip_zeros (digits_fixed k n))"
  then have "c \<in> set (digits_fixed k n)"
    by (auto simp: strip_zeros_def dest: set_dropWhileD)
  then show ?thesis by (rule digits_fixed_chars)
qed

lemma read_fraction4:
  fixes r :: nat
  defines "frac \<equiv> strip_zeros (digits_fixed 4 r)"
  defines "fp \<equiv> (if frac = [] then ''0'' else frac)"
  shows "read_digits fp * 10 ^ (4 - length fp) = r mod 10000"
proof (cases "frac = []")
  case True
  have "read_digits frac * 10 ^ (4 - length frac) = r mod 10 ^ 4"
    using read_strip_zeros [of "digits_fixed 4 r"] by (simp add: frac_def)
  with True show ?thesis by (simp add: fp_def read_digits_def digit_val_def)
next
  case False
  have "read_digits frac * 10 ^ (4 - length frac) = r mod 10 ^ 4"
    using read_strip_zeros [of "digits_fixed 4 r"] by (simp add: frac_def)
  with False show ?thesis by (simp add: fp_def)
qed

lemma read_udec4_split:
  assumes "CHR ''.'' \<notin> set ip"
  shows "read_udec4 (ip @ CHR ''.'' # fp) = read_digits ip * 10000 + read_digits fp * 10 ^ (4 - length fp)"
proof -
  have "\<And>x. x \<in> set ip \<Longrightarrow> x \<noteq> CHR ''.''" using assms by auto
  then show ?thesis
    by (simp add: read_udec4_def takeWhile_append2 dropWhile_append2)
qed

text \<open>The decimal that \<open>json.dump\<close> writes for a rounded price reads back as it.\<close>

lemma read_udec4_repr:
  "read_udec4 (show_nat (a div 10000) @ CHR ''.'' #
     (if strip_zeros (digits_fixed 4 (a mod 10000)) = [] then ''0''
      else strip_zeros (digits_fixed 4 (a mod 10000)))) = a"
proof -
  define fp where "fp = (if strip_zeros (digits_fixed 4 (a mod 10000)) = [] then ''0''
      else strip_zeros (digits_fixed 4 (a mod 10000)))"
  have nodot: "CHR ''.'' \<notin> set (show_nat (a div 10000))"
    using zpad_chars [of "CHR ''.''" 0 "a div 10000"] by auto
  have "read_digits fp * 10 ^ (4 - length fp) = a mod 10000"
    using read_fraction4 [of "a mod 10000"] by (simp add: fp_def)
  then have "read_udec4 (show_nat (a div 10000) @ CHR ''.'' # fp) = a"
    by (simp add: read_udec4_split [OF nodot])
  then show ?thesis by (simp only: fp_def)
qed

text \<open>
  A rounded price printed by \<open>repr\<close> (as \<open>json.dump\<close> writes it, line 84)
  reads back as the same count of \<open>10^-4\<close> units, for every integer.
\<close>

lemma read_dec4_repr_dec4: "read_dec4 (repr_dec4 n) = n"
proof -
  define a where "a = nat \<bar>n\<bar>"
  define fp where "fp = (if strip_zeros (digits_fixed 4 (a mod 10000)) = [] then ''0''
      else strip_zeros (digits_fixed 4 (a mod 10000)))"
  have r: "read_udec4 (show_nat (a div 10000) @ CHR ''.'' # fp) = a"
    unfolding fp_def by (rule read_udec4_repr)
  have repr: "repr_dec4 n = (if n < 0 then ''-'' else []) @ show_nat (a div 10000) @ CHR ''.'' # fp"
    by (simp add: repr_dec4_def Let_def a_def fp_def)
  obtain c t where ct: "show_nat (a div 10000) = c # t"
    using zpad_nonempty by (cases "show_nat (a div 10000)") auto
  have "c \<noteq> CHR ''-''"
    using zpad_chars [of c 0 "a div 10000"] ct by auto
  then show ?thesis
    using r ct by (simp add: repr read_dec4_def a_def)
qed

end
