(* ===== verification/Frame.thy ===== *)
theory Frame
  imports Dates Prices
begin

text \<open>
  The part of pandas that \<^verbatim>\<open>src/fetch_data.py\<close> relies on, modelled from the
  pandas documentation (the library is not part of the repository). The
  provider returns a \<open>DataFrame\<close> indexed by timestamps whose columns are pairs
  (field, ticker), e.g. \<open>("Close", "SPY")\<close>. The program tests \<open>data.empty\<close>
  (line 52), reads the level-0 labels of the columns and selects
  \<open>data["Adj Close"]\<close> or \<open>data["Close"]\<close> (line 57), iterates over the index
  (line 61) and reads one cell with \<open>closes[symbol].loc[date_idx]\<close> (line 65).
  Neither the index nor the columns need be unique: \<open>.loc\<close> of a repeated
  label returns a \<open>Series\<close> or \<open>DataFrame\<close> instead of a scalar, which
  \<open>frame_loc\<close> reports as \<open>Container n\<close> (\<open>n = len(...)\<close>).
\<close>

record 'c frame =
  f_index :: "datetime list"
  f_columns :: "'c list"
  f_values :: "pyval list list"

type_synonym raw_frame = "(string \<times> symbol) frame"
type_synonym close_frame = "symbol frame"

definition wf_frame :: "'c frame \<Rightarrow> bool" where
  "wf_frame f \<longleftrightarrow>
     length (f_values f) = length (f_index f) \<and>
     (\<forall>row \<in> set (f_values f). length row = length (f_columns f))"

text \<open>\<open>DataFrame.empty\<close>: true when either axis has length zero.\<close>

definition frame_empty :: "'c frame \<Rightarrow> bool" where
  "frame_empty f \<longleftrightarrow> f_index f = [] \<or> f_columns f = []"

text \<open>\<open>data.columns.get_level_values(0)\<close>.\<close>

definition level0_values :: "raw_frame \<Rightarrow> string list" where
  "level0_values f = map fst (f_columns f)"

text \<open>
  \<open>data[field]\<close> on two-level columns: the columns whose first label is
  \<open>field\<close>, relabelled by their second label; \<open>KeyError\<close> when there is none.
\<close>

definition select_field :: "raw_frame \<Rightarrow> string \<Rightarrow> error + close_frame" where
  "select_field f fld =
     (if fld \<notin> set (level0_values f) then Inl (KeyError fld)
      else Inr \<lparr>f_index = f_index f,
                f_columns = map snd (filter (\<lambda>c. fst c = fld) (f_columns f)),
                f_values = map (\<lambda>row. map snd (filter (\<lambda>(c, v). fst c = fld) (zip (f_columns f) row)))
                               (f_values f)\<rparr>)"

text \<open>Line 57: adjusted close when the provider has it, plain close otherwise.\<close>

definition select_closes :: "raw_frame \<Rightarrow> error + close_frame" where
  "select_closes data =
     (if ''Adj Close'' \<in> set (level0_values data) then select_field data ''Adj Close''
      else select_field data ''Close'')"

text \<open>What \<open>closes[symbol].loc[date_idx]\<close> returns.\<close>

datatype loc_result = Scalar pyval | Container nat

text \<open>
  \<open>closes[symbol]\<close> is a \<open>Series\<close> when one column has the label and a
  \<open>DataFrame\<close> when several do (\<open>KeyError\<close> when none does); \<open>.loc[t]\<close> of a
  label held by one row gives a scalar, resp. a row \<open>Series\<close> of the selected
  columns, and of a label held by several rows a \<open>Series\<close>, resp. a
  \<open>DataFrame\<close>, with one entry per row.
\<close>

definition frame_loc :: "close_frame \<Rightarrow> symbol \<Rightarrow> datetime \<Rightarrow> error + loc_result" where
  "frame_loc f s t =
     (let cells = map (\<lambda>row. map snd (filter (\<lambda>(c, v). c = s) (zip (f_columns f) row)))
                      (map snd (filter (\<lambda>(t', row). t' = t) (zip (f_index f) (f_values f))));
          k = count_list (f_columns f) s
      in if k = 0 then Inl (KeyError s)
         else (case cells of
                 [] \<Rightarrow> Inl (KeyError (ymd_string t))
               | [vs] \<Rightarrow> (if k = 1 \<and> length vs = 1 then Inr (Scalar (hd vs))
                         else Inr (Container (length vs)))
               | _ \<Rightarrow> Inr (Container (length cells))))"

lemmas frame_simps [job_simps] = frame_empty_def level0_values_def select_field_def
  select_closes_def frame_loc_def

section \<open>Lemmas\<close>

lemma select_closes_adj:
  "''Adj Close'' \<in> set (level0_values data) \<Longrightarrow> select_closes data = select_field data ''Adj Close''"
  by (simp add: select_closes_def)

lemma select_closes_fallback:
  "''Adj Close'' \<notin> set (level0_values data) \<Longrightarrow> select_closes data = select_field data ''Close''"
  by (simp add: select_closes_def)

lemma select_field_index: "select_field f fld = Inr c \<Longrightarrow> f_index c = f_index f"
  by (auto simp: select_field_def split: if_splits)

lemma length_filter_zip:
  "length row = length cols \<Longrightarrow>
   length (filter (\<lambda>(c, v). P c) (zip cols row)) = length (filter P cols)"
proof (induction cols arbitrary: row)
  case Nil
  then show ?case by simp
next
  case (Cons c cols)
  then show ?case by (cases row) auto
qed

lemma select_field_wf: "wf_frame f \<Longrightarrow> select_field f fld = Inr c \<Longrightarrow> wf_frame c"
  by (auto simp: select_field_def wf_frame_def length_filter_zip split: if_splits)

lemma select_closes_wf: "wf_frame f \<Longrightarrow> select_closes f = Inr c \<Longrightarrow> wf_frame c"
  by (auto simp: select_closes_def intro: select_field_wf split: if_splits)

lemma select_closes_index: "select_closes f = Inr c \<Longrightarrow> f_index c = f_index f"
  by (auto simp: select_closes_def intro: select_field_index split: if_splits)

text \<open>Without the adjusted field, selection fails only when \<open>Close\<close> is missing too.\<close>

lemma select_closes_Inl:
  "select_closes f = Inl e \<longleftrightarrow>
     ''Adj Close'' \<notin> set (level0_values f) \<and> ''Close'' \<notin> set (level0_values f) \<and> e = KeyError ''Close''"
  by (auto simp: select_closes_def select_field_def)

lemma length_filter_zip_fst:
  "length xs = length ys \<Longrightarrow> length (filter (\<lambda>(x, y). x = a) (zip xs ys)) = count_list xs a"
proof (induction xs arbitrary: ys)
  case Nil
  then show ?case by simp
next
  case (Cons x xs)
  then show ?case by (cases ys) auto
qed

text \<open>A label held by two or more index entries: \<open>.loc\<close> returns a container.\<close>

lemma frame_loc_repeated:
  assumes "wf_frame c" and "2 \<le> count_list (f_index c) t" and "0 < count_list (f_columns c) s"
  shows "\<exists>n. 2 \<le> n \<and> frame_loc c s t = Inr (Container n)"
proof -
  let ?rows = "map snd (filter (\<lambda>(t', row). t' = t) (zip (f_index c) (f_values c)))"
  have "length ?rows = count_list (f_index c) t"
    using assms(1) by (simp add: wf_frame_def length_filter_zip_fst)
  with assms(2) obtain r1 r2 rs where rows: "?rows = r1 # r2 # rs"
    by (cases ?rows rule: remdups_adj.cases) auto
  have "length (r1 # r2 # rs) = count_list (f_index c) t"
    using \<open>length ?rows = count_list (f_index c) t\<close> rows by simp
  with assms(2,3) show ?thesis
    by (simp add: frame_loc_def Let_def rows)
qed

lemma filter_zip_single:
  assumes "count_list xs a = 1" and "i < length xs" and "xs ! i = a" and "length ys = length xs"
  shows "map snd (filter (\<lambda>(x, y). x = a) (zip xs ys)) = [ys ! i]"
  using assms
proof (induction xs arbitrary: ys i)
  case Nil
  then show ?case by simp
next
  case (Cons x xs)
  obtain y ys' where ys: "ys = y # ys'" using Cons.prems(4) by (cases ys) auto
  show ?case
  proof (cases i)
    case 0
    with Cons.prems have "x = a" "count_list xs a = 0" by auto
    then have "filter (\<lambda>(x, y). x = a) (zip xs ys') = []"
      by (auto simp: filter_empty_conv count_list_0_iff dest: set_zip_leftD)
    with \<open>x = a\<close> ys 0 show ?thesis by simp
  next
    case (Suc k)
    have "x \<noteq> a"
    proof
      assume "x = a"
      with Cons.prems(1) have "count_list xs a = 0" by simp
      moreover from Cons.prems(2,3) Suc have "a \<in> set xs" by (auto simp: in_set_conv_nth)
      ultimately show False by (simp add: count_list_0_iff)
    qed
    with Cons.prems Suc ys have "map snd (filter (\<lambda>(x, y). x = a) (zip xs ys')) = [ys' ! k]"
      by (intro Cons.IH) auto
    with \<open>x \<noteq> a\<close> ys Suc show ?thesis by simp
  qed
qed




lemma frame_loc_scalar_in:
  assumes "frame_loc c s t = Inr (Scalar v)"
  shows "\<exists>row \<in> set (f_values c). v \<in> set row"
proof -
  let ?rows = "map snd (filter (\<lambda>(t', row). t' = t) (zip (f_index c) (f_values c)))"
  let ?cell = "\<lambda>row. map snd (filter (\<lambda>(c, v). c = s) (zip (f_columns c) row))"
  from assms have "\<exists>row. ?rows = [row] \<and> ?cell row \<noteq> [] \<and> v = hd (?cell row)"
    by (auto simp: frame_loc_def Let_def split: if_splits list.splits)
  then obtain row where "?rows = [row] \<and> ?cell row \<noteq> [] \<and> v = hd (?cell row)" ..
  then have rows: "?rows = [row]" and ne: "?cell row \<noteq> []" and v: "v = hd (?cell row)"
    by simp_all
  have "row \<in> set ?rows" using rows by simp
  then have "row \<in> set (f_values c)" by (auto dest: set_zip_rightD)
  moreover have "v \<in> set row"
  proof -
    have "v \<in> set (?cell row)" using v ne by (metis hd_in_set)
    then show ?thesis by (auto dest: set_zip_rightD)
  qed
  ultimately show ?thesis by blast
qed

lemma frame_loc_scalar_exists:
  assumes "wf_frame c" and "count_list (f_index c) t = 1" and "count_list (f_columns c) s = 1"
  shows "\<exists>v. frame_loc c s t = Inr (Scalar v)"
proof -
  have "t \<in> set (f_index c)" using assms(2) by (metis count_notin zero_neq_one)
  then obtain i where i: "i < length (f_index c)" "f_index c ! i = t" by (auto simp: in_set_conv_nth)
  have "s \<in> set (f_columns c)" using assms(3) by (metis count_notin zero_neq_one)
  then obtain j where j: "j < length (f_columns c)" "f_columns c ! j = s" by (auto simp: in_set_conv_nth)
  have len: "length (f_values c) = length (f_index c)" using assms(1) by (simp add: wf_frame_def)
  have rows: "map snd (filter (\<lambda>(t', row). t' = t) (zip (f_index c) (f_values c))) = [f_values c ! i]"
    using filter_zip_single [OF assms(2) i len] .
  have "f_values c ! i \<in> set (f_values c)" using i len by simp
  then have "length (f_values c ! i) = length (f_columns c)" using assms(1) by (simp add: wf_frame_def)
  then have "map snd (filter (\<lambda>(c', v). c' = s) (zip (f_columns c) (f_values c ! i))) = [f_values c ! i ! j]"
    by (rule filter_zip_single [OF assms(3) j])
  with rows assms(3) show ?thesis by (simp add: frame_loc_def Let_def)
qed

end
