(* ===== verification/PyDict.thy ===== *)
theory PyDict
  imports Prelude
begin

text \<open>
  Python's \<open>dict\<close> as the program uses it: insertion-ordered, one entry per key.
  A dict is an association list; \<open>d[k] = v\<close> (\<open>dict_set\<close>) overwrites the value in
  place when the key is present and appends the entry otherwise, so iteration
  order (\<open>keys\<close>, \<open>items()\<close>) is first-insertion order, as in CPython 3.7+.
  \<open>d[k]\<close> is \<open>dict_get\<close>, \<open>None\<close> where Python raises \<open>KeyError\<close>.
  The lemmas show that the association list refines a map (\<open>map_of\<close>) and that
  keys stay distinct: the invariant every dict of the program keeps.
\<close>

type_synonym ('k, 'v) pydict = "('k \<times> 'v) list"

fun dict_set :: "('k, 'v) pydict \<Rightarrow> 'k \<Rightarrow> 'v \<Rightarrow> ('k, 'v) pydict" where
  "dict_set [] k v = [(k, v)]"
| "dict_set ((k', v') # d) k v =
     (if k' = k then (k', v) # d else (k', v') # dict_set d k v)"

definition dict_get :: "('k, 'v) pydict \<Rightarrow> 'k \<Rightarrow> 'v option" where
  "dict_get d k = map_of d k"

abbreviation dict_keys :: "('k, 'v) pydict \<Rightarrow> 'k list" where
  "dict_keys d \<equiv> map fst d"

definition dict_wf :: "('k, 'v) pydict \<Rightarrow> bool" where
  "dict_wf d \<longleftrightarrow> distinct (dict_keys d)"

text \<open>A dict display \<open>{k1: v1, k2: v2, ...}\<close>: the entries stored in order.\<close>

definition dict_of_list :: "('k \<times> 'v) list \<Rightarrow> ('k, 'v) pydict" where
  "dict_of_list kvs = fold (\<lambda>(k, v) d. dict_set d k v) kvs []"

section \<open>Lemmas\<close>

lemma map_of_dict_set [simp]: "map_of (dict_set d k v) = (map_of d)(k \<mapsto> v)"
  by (induction d k v rule: dict_set.induct) (auto simp: fun_eq_iff)

lemma dict_get_set [simp]: "dict_get (dict_set d k v) k' = (if k' = k then Some v else dict_get d k')"
  by (simp add: dict_get_def)

lemma keys_dict_set:
  "dict_keys (dict_set d k v) = (if k \<in> set (dict_keys d) then dict_keys d else dict_keys d @ [k])"
  by (induction d k v rule: dict_set.induct) auto

lemma set_keys_dict_set [simp]: "fst ` set (dict_set d k v) = insert k (fst ` set d)"
  by (induction d k v rule: dict_set.induct) auto

lemma dict_wf_empty [simp, intro]: "dict_wf []"
  by (simp add: dict_wf_def)

lemma dict_wf_set [intro]: "dict_wf d \<Longrightarrow> dict_wf (dict_set d k v)"
  by (simp add: dict_wf_def keys_dict_set)

lemma dict_get_in_keys: "dict_get d k = Some v \<Longrightarrow> k \<in> set (dict_keys d)"
  by (auto simp: dict_get_def dest: map_of_SomeD intro: rev_image_eqI)

lemma dict_get_None_iff: "dict_get d k = None \<longleftrightarrow> k \<notin> set (dict_keys d)"
  by (simp add: dict_get_def map_of_eq_None_iff)

lemma dict_get_in_keys_ex: "k \<in> set (dict_keys d) \<Longrightarrow> \<exists>v. dict_get d k = Some v"
  using dict_get_None_iff [of d k] by (cases "dict_get d k") auto

lemma dict_get_wf_iff: "dict_wf d \<Longrightarrow> dict_get d k = Some v \<longleftrightarrow> (k, v) \<in> set d"
  by (simp add: dict_get_def dict_wf_def)

lemma dict_set_fresh: "k \<notin> set (dict_keys d) \<Longrightarrow> dict_set d k v = d @ [(k, v)]"
  by (induction d k v rule: dict_set.induct) auto

lemma dict_of_list_distinct:
  "distinct (map fst kvs) \<Longrightarrow> dict_of_list kvs = kvs"
proof -
  have "distinct (map fst kvs) \<Longrightarrow> set (map fst acc) \<inter> set (map fst kvs) = {} \<Longrightarrow>
        fold (\<lambda>(k, v) d. dict_set d k v) kvs acc = acc @ kvs" for acc
  proof (induction kvs arbitrary: acc)
    case Nil
    then show ?case by simp
  next
    case (Cons kv kvs)
    obtain k v where kv: "kv = (k, v)" by fastforce
    with Cons.prems have "k \<notin> set (dict_keys acc)" by auto
    then have "dict_set acc k v = acc @ [(k, v)]" by (rule dict_set_fresh)
    moreover have "fold (\<lambda>(k, v) d. dict_set d k v) kvs (acc @ [(k, v)]) = (acc @ [(k, v)]) @ kvs"
      using Cons.prems kv by (intro Cons.IH) auto
    ultimately show ?case using kv by simp
  qed
  then show "distinct (map fst kvs) \<Longrightarrow> dict_of_list kvs = kvs"
    by (simp add: dict_of_list_def)
qed

lemma dict_set_twice [simp]: "dict_set (dict_set d k v) k w = dict_set d k w"
  by (induction d k v rule: dict_set.induct) auto

lemma set_dict_set_subset: "set (dict_set d k v) \<subseteq> insert (k, v) (set d)"
  by (induction d k v rule: dict_set.induct) auto

lemma map_of_dict_get: "dict_get d = map_of d"
  by (simp add: dict_get_def fun_eq_iff)



lemmas dict_simps [job_simps] = dict_set.simps dict_get_def dict_of_list_def

lemma fold_dict_set_fresh:
  "distinct (map fst kvs) \<Longrightarrow> fst ` set acc \<inter> fst ` set kvs = {} \<Longrightarrow>
   fold (\<lambda>(k, v) acc. dict_set acc k (g v)) kvs acc = acc @ map (\<lambda>(k, v). (k, g v)) kvs"
proof (induction kvs arbitrary: acc)
  case Nil
  then show ?case by simp
next
  case (Cons kv kvs)
  obtain k v where kv: "kv = (k, v)" by fastforce
  with Cons.prems have "k \<notin> set (dict_keys acc)" by auto
  then have "dict_set acc k (g v) = acc @ [(k, g v)]" by (rule dict_set_fresh)
  moreover have "fold (\<lambda>(k, v) acc. dict_set acc k (g v)) kvs (acc @ [(k, g v)]) =
                 (acc @ [(k, g v)]) @ map (\<lambda>(k, v). (k, g v)) kvs"
    using Cons.prems kv by (intro Cons.IH) auto
  ultimately show ?case using kv by simp
qed

end
