(* ===== verification/Extract.thy ===== *)
theory Extract
  imports Frame PyDict
begin

text \<open>
  The core loop of \<^verbatim>\<open>src/fetch_data.py\<close> (lines 59--71). For every entry
  \<open>date_idx\<close> of the index, in order, the program sets \<open>prices[date_str] = {}\<close>
  and then, for every symbol, reads the cell, skips it when it is \<open>None\<close>,
  an empty container or NaN (line 66), and otherwise stores
  \<open>round(float(price), 4)\<close> under the symbol's display name. The inner dict is
  one object held by \<open>prices\<close>: the model builds it in the accumulator of
  \<open>record_symbols\<close> and stores it back under the same key, which is the same
  final dict. Lines 70--71 sort the keys and list the rows in that order.
\<close>

type_synonym row = "(asset_name, jnum) pydict"
type_synonym price_table = "(string, row) pydict"

text \<open>The test of line 66, with the float it keeps (\<open>None\<close> = skip the cell).\<close>

fun check_price :: "loc_result \<Rightarrow> error + pyfloat option" where
  "check_price (Scalar VNone) = Inr None"
| "check_price (Scalar (VFloat x)) = Inr (if float_ne_self x then None else Some x)"
| "check_price (Container n) =
     (if n = 0 then Inr None
      else Inl (ValueError ''The truth value of a Series is ambiguous''))"

text \<open>The inner loop (lines 64--67) for one index entry \<open>t\<close>.\<close>

fun record_symbols ::
  "(symbol, asset_name) pydict \<Rightarrow> close_frame \<Rightarrow> datetime \<Rightarrow> symbol list \<Rightarrow> row \<Rightarrow> error + row" where
  "record_symbols etfs f t [] r = Inr r"
| "record_symbols etfs f t (s # ss) r =
     (case frame_loc f s t of
        Inl e \<Rightarrow> Inl e
      | Inr p \<Rightarrow>
          (case check_price p of
             Inl e \<Rightarrow> Inl e
           | Inr None \<Rightarrow> record_symbols etfs f t ss r
           | Inr (Some x) \<Rightarrow>
               (case dict_get etfs s of
                  None \<Rightarrow> Inl (KeyError s)
                | Some name \<Rightarrow> record_symbols etfs f t ss (dict_set r name (round4 x)))))"

text \<open>The outer loop (lines 61--67) over the remaining index entries.\<close>

fun build_prices ::
  "(symbol, asset_name) pydict \<Rightarrow> close_frame \<Rightarrow> symbol list \<Rightarrow> datetime list \<Rightarrow> price_table \<Rightarrow>
   error + price_table" where
  "build_prices etfs f syms [] p = Inr p"
| "build_prices etfs f syms (t # ts) p =
     (let ds = ymd_string t; p1 = dict_set p ds [] in
      case record_symbols etfs f t syms [] of
        Inl e \<Rightarrow> Inl e
      | Inr r \<Rightarrow> build_prices etfs f syms ts (dict_set p1 ds r))"

definition extract_prices :: "(symbol, asset_name) pydict \<Rightarrow> close_frame \<Rightarrow> symbol list \<Rightarrow> error + price_table" where
  "extract_prices etfs closes syms = build_prices etfs closes syms (f_index closes) []"

text \<open>Lines 70--71: \<open>sorted(prices.keys())\<close> and the rows in that order.\<close>

definition sorted_dates :: "price_table \<Rightarrow> string list" where
  "sorted_dates p = sort (dict_keys p)"

fun rows_for :: "price_table \<Rightarrow> string list \<Rightarrow> error + (string \<times> row) list" where
  "rows_for p [] = Inr []"
| "rows_for p (d # ds) =
     (case dict_get p d of
        None \<Rightarrow> Inl (KeyError d)
      | Some r \<Rightarrow> (case rows_for p ds of Inl e \<Rightarrow> Inl e | Inr rs \<Rightarrow> Inr ((d, r) # rs)))"

definition sorted_prices :: "price_table \<Rightarrow> error + (string \<times> row) list" where
  "sorted_prices p = rows_for p (sorted_dates p)"

lemmas extract_simps [job_simps] = extract_prices_def sorted_dates_def sorted_prices_def

section \<open>Lemmas on the inner loop\<close>

lemma check_price_Some:
  "check_price p = Inr (Some x) \<longleftrightarrow> p = Scalar (VFloat x) \<and> x \<noteq> PyNaN"
  by (cases p rule: check_price.cases) (auto elim: float_ne_self.elims)

lemma record_symbols_wf: "record_symbols etfs f t syms r = Inr r' \<Longrightarrow> dict_wf r \<Longrightarrow> dict_wf r'"
  by (induction etfs f t syms r rule: record_symbols.induct)
     (auto split: sum.splits option.splits simp: dict_wf_set)

lemma record_symbols_step_cases:
  assumes "record_symbols etfs f t (s # ss) r = Inr r'"
  obtains (skip) p where "frame_loc f s t = Inr p" "check_price p = Inr None"
      "record_symbols etfs f t ss r = Inr r'"
  | (keep) x n where "frame_loc f s t = Inr (Scalar (VFloat x))" "x \<noteq> PyNaN"
      "dict_get etfs s = Some n" "record_symbols etfs f t ss (dict_set r n (round4 x)) = Inr r'"
  using assms by (auto split: sum.splits option.splits simp: check_price_Some)

lemma record_symbols_get:
  "record_symbols etfs f t syms r = Inr r' \<Longrightarrow> dict_get r' n = Some v \<Longrightarrow>
   dict_get r n = Some v \<or>
   (\<exists>s \<in> set syms. \<exists>x. dict_get etfs s = Some n \<and> frame_loc f s t = Inr (Scalar (VFloat x)) \<and>
      x \<noteq> PyNaN \<and> v = round4 x)"
proof (induction syms arbitrary: r)
  case Nil
  then show ?case by simp
next
  case (Cons s ss)
  from Cons.prems(1) show ?case
  proof (cases rule: record_symbols_step_cases)
    case (skip p)
    with Cons.IH [OF skip(3) Cons.prems(2)] show ?thesis by auto
  next
    case (keep x m)
    from Cons.IH [OF keep(4) Cons.prems(2)] keep(1-3) show ?thesis
      by (auto split: if_splits)
  qed
qed
lemma record_symbols_keys_mono:
  "record_symbols etfs f t syms r = Inr r' \<Longrightarrow> set (dict_keys r) \<subseteq> set (dict_keys r')"
proof (induction syms arbitrary: r)
  case Nil
  then show ?case by simp
next
  case (Cons s ss)
  from Cons.prems show ?case
  proof (cases rule: record_symbols_step_cases)
    case (skip p)
    from Cons.IH [OF skip(3)] show ?thesis .
  next
    case (keep x n)
    from Cons.IH [OF keep(4)] show ?thesis by auto
  qed
qed

text \<open>Every kept cell is recorded under the name of its symbol.\<close>

lemma record_symbols_complete:
  assumes "record_symbols etfs f t syms r = Inr r'" and "s \<in> set syms"
    and "frame_loc f s t = Inr (Scalar (VFloat x))" and "x \<noteq> PyNaN" and "dict_get etfs s = Some n"
  shows "n \<in> set (dict_keys r')"
  using assms
proof (induction syms arbitrary: r)
  case Nil
  then show ?case by simp
next
  case (Cons s' ss)
  from Cons.prems(1) show ?case
  proof (cases rule: record_symbols_step_cases)
    case (skip p)
    show ?thesis
    proof (cases "s' = s")
      case True
      with skip(1) Cons.prems(3) have "p = Scalar (VFloat x)" by simp
      with skip(2) Cons.prems(4) show ?thesis by simp
    next
      case False
      with Cons.prems(2) have "s \<in> set ss" by simp
      from Cons.IH [OF skip(3) this Cons.prems(3-5)] show ?thesis .
    qed
  next
    case (keep x' m)
    show ?thesis
    proof (cases "s' = s")
      case True
      with keep Cons.prems have "m = n" by simp
      with record_symbols_keys_mono [OF keep(4)] show ?thesis by auto
    next
      case False
      with Cons.prems(2) have "s \<in> set ss" by simp
      from Cons.IH [OF keep(4) this Cons.prems(3-5)] show ?thesis .
    qed
  qed
qed

text \<open>
  When the symbols have distinct display names, the row holds exactly the
  rounded value of every kept cell.
\<close>

lemma record_symbols_value:
  assumes "record_symbols etfs f t syms [] = Inr r'" and "s \<in> set syms"
    and "frame_loc f s t = Inr (Scalar (VFloat x))" and "x \<noteq> PyNaN" and "dict_get etfs s = Some n"
    and inj: "inj_on (dict_get etfs) (set syms)"
  shows "dict_get r' n = Some (round4 x)"
proof -
  have "n \<in> set (dict_keys r')" by (rule record_symbols_complete [OF assms(1-5)])
  then have "\<exists>v. dict_get r' n = Some v" by (rule dict_get_in_keys_ex)
  then obtain v where v: "dict_get r' n = Some v" ..
  have "\<exists>s' \<in> set syms. \<exists>x'. dict_get etfs s' = Some n \<and>
          frame_loc f s' t = Inr (Scalar (VFloat x')) \<and> x' \<noteq> PyNaN \<and> v = round4 x'"
  proof -
    have "dict_get [] n = Some v \<or> (\<exists>s' \<in> set syms. \<exists>x'. dict_get etfs s' = Some n \<and>
            frame_loc f s' t = Inr (Scalar (VFloat x')) \<and> x' \<noteq> PyNaN \<and> v = round4 x')"
      by (rule record_symbols_get [OF assms(1) v])
    moreover have "dict_get ([] :: row) n = None" by (simp add: dict_get_def)
    ultimately show ?thesis by simp
  qed
  then obtain s' x' where s': "s' \<in> set syms" "dict_get etfs s' = Some n"
      "frame_loc f s' t = Inr (Scalar (VFloat x'))" "v = round4 x'"
    by blast
  have "s' = s"
    by (rule inj_onD [OF inj]) (simp_all add: s'(1,2) assms(2,5))
  with s'(3) assms(3) have "x' = x" by simp
  with s'(4) v show ?thesis by simp
qed

section \<open>Lemmas on the outer loop\<close>

lemma build_prices_wf:
  "build_prices etfs f syms ts p = Inr p' \<Longrightarrow> dict_wf p \<Longrightarrow> dict_wf p'"
  by (induction etfs f syms ts p rule: build_prices.induct)
     (auto split: sum.splits simp: Let_def dict_wf_set)

lemma build_prices_keys:
  "build_prices etfs f syms ts p = Inr p' \<Longrightarrow>
   set (dict_keys p') = set (dict_keys p) \<union> ymd_string ` set ts"
  by (induction etfs f syms ts p rule: build_prices.induct)
     (auto split: sum.splits simp: Let_def)

text \<open>
  The row stored for a date string is the one built from the last index entry
  with that date: \<open>prices[date_str] = {}\<close> discards what earlier entries of
  the same day recorded.
\<close>

definition last_of_day :: "datetime list \<Rightarrow> string \<Rightarrow> datetime" where
  "last_of_day ts ds = last (filter (\<lambda>t. ymd_string t = ds) ts)"

lemma build_prices_get:
  "build_prices etfs f syms ts p = Inr p' \<Longrightarrow>
   dict_get p' ds =
     (if ds \<in> ymd_string ` set ts
      then (case record_symbols etfs f (last_of_day ts ds) syms [] of Inl e \<Rightarrow> None | Inr r \<Rightarrow> Some r)
      else dict_get p ds)"
proof (induction ts arbitrary: p)
  case Nil
  then show ?case by simp
next
  case (Cons t ts)
  from Cons.prems obtain r where r: "record_symbols etfs f t syms [] = Inr r"
    and rest: "build_prices etfs f syms ts (dict_set p (ymd_string t) r) = Inr p'"
    by (auto simp: Let_def split: sum.splits)
  have rest_get: "dict_get p' ds =
     (if ds \<in> ymd_string ` set ts
      then (case record_symbols etfs f (last_of_day ts ds) syms [] of Inl e \<Rightarrow> None | Inr r \<Rightarrow> Some r)
      else dict_get (dict_set p (ymd_string t) r) ds)"
    using Cons.IH [OF rest] .
  show ?case
  proof (cases "ds \<in> ymd_string ` set ts")
    case True
    then have "filter (\<lambda>t'. ymd_string t' = ds) ts \<noteq> []"
      by (auto simp: filter_empty_conv)
    then have "last_of_day (t # ts) ds = last_of_day ts ds"
      by (simp add: last_of_day_def)
    with True rest_get show ?thesis by simp
  next
    case False
    then have "filter (\<lambda>t'. ymd_string t' = ds) ts = []"
      by (auto simp: filter_empty_conv)
    show ?thesis
    proof (cases "ds = ymd_string t")
      case True
      with \<open>filter (\<lambda>t'. ymd_string t' = ds) ts = []\<close> have "last_of_day (t # ts) ds = t"
        by (simp add: last_of_day_def)
      with True False rest_get r show ?thesis by simp
    next
      case False': False
      with False rest_get show ?thesis by simp
    qed
  qed
qed

lemma build_prices_rows_wf:
  "build_prices etfs f syms ts p = Inr p' \<Longrightarrow> \<forall>(d, r) \<in> set p. dict_wf r \<Longrightarrow>
   \<forall>(d, r) \<in> set p'. dict_wf r"
proof (induction ts arbitrary: p)
  case Nil
  then show ?case by simp
next
  case (Cons t ts)
  from Cons.prems(1) obtain r where r: "record_symbols etfs f t syms [] = Inr r"
    and rest: "build_prices etfs f syms ts (dict_set p (ymd_string t) r) = Inr p'"
    by (auto simp: Let_def split: sum.splits)
  have "dict_wf r" using record_symbols_wf [OF r] by simp
  then have "\<forall>(d, r') \<in> set (dict_set p (ymd_string t) r). dict_wf r'"
    using Cons.prems(2) set_dict_set_subset [of p "ymd_string t" r] by auto
  from Cons.IH [OF rest this] show ?case .
qed

text \<open>A successful run of the outer loop ran the inner loop successfully at every entry.\<close>

lemma build_prices_entry_ok:
  "build_prices etfs f syms ts p = Inr p' \<Longrightarrow> t \<in> set ts \<Longrightarrow>
   \<exists>r. record_symbols etfs f t syms [] = Inr r"
proof (induction ts arbitrary: p)
  case Nil
  then show ?case by simp
next
  case (Cons t' ts)
  from Cons.prems(1) obtain r where r: "record_symbols etfs f t' syms [] = Inr r"
    and rest: "build_prices etfs f syms ts (dict_set p (ymd_string t') r) = Inr p'"
    by (auto simp: Let_def split: sum.splits)
  show ?case
  proof (cases "t = t'")
    case True
    with r show ?thesis by blast
  next
    case False
    with Cons.prems(2) have "t \<in> set ts" by simp
    from Cons.IH [OF rest this] show ?thesis .
  qed
qed

section \<open>Lemmas on the sort\<close>

lemma sorted_dates_strict:
  "dict_wf p \<Longrightarrow> sorted_wrt (<) (sorted_dates p)"
  by (simp add: sorted_dates_def dict_wf_def strict_sorted_iff)

lemma set_sorted_dates [simp]: "set (sorted_dates p) = set (dict_keys p)"
  by (simp add: sorted_dates_def)

lemma rows_for_keys:
  "set ds \<subseteq> set (dict_keys p) \<Longrightarrow>
   \<exists>rs. rows_for p ds = Inr rs \<and> map fst rs = ds \<and> (\<forall>(d, r) \<in> set rs. dict_get p d = Some r)"
proof (induction ds)
  case Nil
  then show ?case by simp
next
  case (Cons d ds)
  then obtain r where "dict_get p d = Some r"
    using dict_get_in_keys_ex [of d p] by auto
  with Cons show ?case by auto
qed

lemma sorted_prices_Inr:
  "\<exists>rs. sorted_prices p = Inr rs \<and> map fst rs = sorted_dates p \<and>
        (\<forall>(d, r) \<in> set rs. dict_get p d = Some r)"
  unfolding sorted_prices_def by (rule rows_for_keys) simp

lemma record_symbols_total:
  "\<forall>s \<in> set syms. (\<exists>v. frame_loc f s t = Inr (Scalar v)) \<and> s \<in> set (dict_keys etfs) \<Longrightarrow>
   \<exists>r'. record_symbols etfs f t syms r = Inr r'"
proof (induction syms arbitrary: r)
  case Nil
  then show ?case by simp
next
  case (Cons s ss)
  then obtain v where v: "frame_loc f s t = Inr (Scalar v)" and k: "s \<in> set (dict_keys etfs)" by auto
  from k have "\<exists>n. dict_get etfs s = Some n" by (rule dict_get_in_keys_ex)
  then obtain n where n: "dict_get etfs s = Some n" ..
  have ih: "\<And>r. \<exists>r'. record_symbols etfs f t ss r = Inr r'" using Cons by simp
  show ?case
  proof (cases v)
    case VNone
    with v ih show ?thesis by simp
  next
    case (VFloat x)
    with v n ih show ?thesis by simp
  qed
qed

lemma build_prices_total:
  "\<forall>t \<in> set ts. \<exists>r. record_symbols etfs f t syms [] = Inr r \<Longrightarrow>
   \<exists>p'. build_prices etfs f syms ts p = Inr p'"
  by (induction ts arbitrary: p) (auto simp: Let_def)

end
