(* ===== verification/Config.thy ===== *)
theory Config
  imports PyDict
begin

text \<open>
  The static configuration of \<^verbatim>\<open>src/fetch_data.py\<close> (lines 17--39): the table
  \<open>ETFS\<close> from ticker symbol to asset-class display name and the table \<open>COLORS\<close>
  from display name to a hex colour, both dict displays; the list of symbols
  requested from the provider (line 49); and the \<open>asset_classes\<close> section of the
  output document (lines 75--78), which looks every display name up in
  \<open>COLORS\<close> and so would raise \<open>KeyError\<close> for a name without a colour.
\<close>

definition ETFS :: "(symbol, asset_name) pydict" where
  "ETFS = dict_of_list
     [(''SPY'', ''Large Cap''),
      (''IWM'', ''Small Cap''),
      (''EFA'', ''Dev ex-US''),
      (''EEM'', ''Emerging Mkt''),
      (''REET'', ''Real Estate''),
      (''AGG'', ''US Fixed Inc''),
      (''BNDX'', ''Intl Fixed Inc''),
      (''HYG'', ''High Yield''),
      (''BIL'', ''Cash'')]"

definition COLORS :: "(asset_name, color) pydict" where
  "COLORS = dict_of_list
     [(''Large Cap'', ''#1f77b4''),
      (''Small Cap'', ''#ff7f0e''),
      (''Dev ex-US'', ''#2ca02c''),
      (''Emerging Mkt'', ''#d62728''),
      (''Real Estate'', ''#9467bd''),
      (''US Fixed Inc'', ''#8c564b''),
      (''Intl Fixed Inc'', ''#e377c2''),
      (''High Yield'', ''#7f7f7f''),
      (''Cash'', ''#bcbd22'')]"

text \<open>\<open>symbols = list(ETFS.keys())\<close> (line 49).\<close>

definition symbols :: "symbol list" where
  "symbols = dict_keys ETFS"

text \<open>One entry of the \<open>asset_classes\<close> list: the dict \<open>{"name", "symbol", "color"}\<close>.\<close>

record asset_class =
  ac_name :: asset_name
  ac_symbol :: symbol
  ac_color :: color

text \<open>
  The list comprehension of lines 75--78 over \<open>ETFS.items()\<close>, for any two
  tables; \<open>COLORS[name]\<close> raises \<open>KeyError\<close> at the first name without a colour.
\<close>

fun asset_classes_of ::
  "(symbol, asset_name) pydict \<Rightarrow> (asset_name, color) pydict \<Rightarrow> error + asset_class list" where
  "asset_classes_of [] colors = Inr []"
| "asset_classes_of ((sy, name) # etfs) colors =
     (case dict_get colors name of
        None \<Rightarrow> Inl (KeyError name)
      | Some c \<Rightarrow>
          (case asset_classes_of etfs colors of
             Inl e \<Rightarrow> Inl e
           | Inr acs \<Rightarrow> Inr (\<lparr>ac_name = name, ac_symbol = sy, ac_color = c\<rparr> # acs)))"

definition asset_classes :: "error + asset_class list" where
  "asset_classes = asset_classes_of ETFS COLORS"

section \<open>Lemmas\<close>

lemma ETFS_list:
  "ETFS = [(''SPY'', ''Large Cap''), (''IWM'', ''Small Cap''), (''EFA'', ''Dev ex-US''),
           (''EEM'', ''Emerging Mkt''), (''REET'', ''Real Estate''), (''AGG'', ''US Fixed Inc''),
           (''BNDX'', ''Intl Fixed Inc''), (''HYG'', ''High Yield''), (''BIL'', ''Cash'')]"
  unfolding ETFS_def by (rule dict_of_list_distinct) simp

lemma COLORS_list:
  "COLORS = [(''Large Cap'', ''#1f77b4''), (''Small Cap'', ''#ff7f0e''),
             (''Dev ex-US'', ''#2ca02c''), (''Emerging Mkt'', ''#d62728''),
             (''Real Estate'', ''#9467bd''), (''US Fixed Inc'', ''#8c564b''),
             (''Intl Fixed Inc'', ''#e377c2''), (''High Yield'', ''#7f7f7f''),
             (''Cash'', ''#bcbd22'')]"
  unfolding COLORS_def by (rule dict_of_list_distinct) simp

lemmas config_tables [job_simps] = ETFS_list COLORS_list symbols_def asset_classes_def

text \<open>
  The comprehension succeeds exactly when every display name has a colour, and
  then it lists the entries of \<open>ETFS\<close> in order with their colours.
\<close>

lemma asset_classes_of_Inr_iff:
  "asset_classes_of etfs colors = Inr acs \<longleftrightarrow>
     (\<forall>(s, n) \<in> set etfs. n \<in> set (dict_keys colors)) \<and>
     acs = map (\<lambda>(s, n). \<lparr>ac_name = n, ac_symbol = s, ac_color = the (dict_get colors n)\<rparr>) etfs"
proof (induction etfs arbitrary: acs)
  case Nil
  then show ?case by auto
next
  case (Cons e etfs)
  obtain s n where e: "e = (s, n)" by fastforce
  show ?case
  proof (cases "dict_get colors n")
    case None
    moreover from None have "n \<notin> set (dict_keys colors)" by (simp add: dict_get_None_iff)
    ultimately show ?thesis using e by auto
  next
    case (Some c)
    then have n: "n \<in> set (dict_keys colors)" by (rule dict_get_in_keys)
    show ?thesis
    proof (cases "asset_classes_of etfs colors")
      case (Inl x)
      then have "\<not> (\<forall>(s, n) \<in> set etfs. n \<in> set (dict_keys colors))"
        using Cons.IH by auto
      with Some Inl e show ?thesis by auto
    next
      case (Inr r)
      with Cons.IH [of r] Some n e show ?thesis by auto
    qed
  qed
qed



text \<open>Every display name of \<open>ETFS\<close> has a colour, so the comprehension succeeds.\<close>

lemma asset_classes_Inr:
  "asset_classes =
     Inr (map (\<lambda>(s, n). \<lparr>ac_name = n, ac_symbol = s, ac_color = the (dict_get COLORS n)\<rparr>) ETFS)"
  unfolding asset_classes_def by (subst asset_classes_of_Inr_iff) (simp add: ETFS_list COLORS_list)

end
