(* ===== verification/Json.thy ===== *)
theory Json
  imports Config Dates Prices PyDict
begin

text \<open>
  The output document of \<^verbatim>\<open>src/fetch_data.py\<close> (lines 71--84) and Python's
  \<open>json.dump(output, f, separators=(",", ":"))\<close>: JSON values, the compact
  printer (no whitespace), and the string encoder of the default
  \<open>ensure_ascii=True\<close>, which writes \<open>"\<close>, the backslash and the control
  characters \<open>\b \f \n \r \t\<close> as two-character escapes and every other
  character outside \<open>' '..'~'\<close> as \<open>\u00XX\<close> in lower-case hex. Characters are
  the code points 0--255 (a HOL \<open>char\<close>). Floats print with \<open>repr\<close>
  (\<open>repr_jnum\<close>), NaN and the infinities as \<open>NaN\<close>, \<open>Infinity\<close>,
  \<open>-Infinity\<close> (the default \<open>allow_nan=True\<close>). The lemmas show that the
  string encoder is inverted by a decoder, that everything written is
  printable ASCII (C11), and that the document begins with the
  \<open>updated_at\<close> timestamp verbatim, so documents with different timestamps
  differ.
\<close>

datatype json = JStr string | JNum jnum | JArr "json list" | JObj "(string \<times> json) list"

abbreviation BSL :: char where "BSL \<equiv> CHR 0x5C"
abbreviation DQ :: char where "DQ \<equiv> CHR 0x22"

definition hex_char :: "nat \<Rightarrow> char" where
  "hex_char d = (if d < 10 then char_of (48 + d) else char_of (87 + d))"

definition escape_char :: "char \<Rightarrow> string" where
  "escape_char c =
     (let n = of_char c :: nat in
      if c = DQ then [BSL, DQ]
      else if c = BSL then [BSL, BSL]
      else if n = 10 then [BSL, CHR ''n'']
      else if n = 13 then [BSL, CHR ''r'']
      else if n = 9 then [BSL, CHR ''t'']
      else if n = 8 then [BSL, CHR ''b'']
      else if n = 12 then [BSL, CHR ''f'']
      else if n < 32 \<or> 126 < n
        then [BSL, CHR ''u'', CHR ''0'', CHR ''0'', hex_char (n div 16), hex_char (n mod 16)]
      else [c])"

definition dump_str :: "string \<Rightarrow> string" where
  "dump_str s = [DQ] @ concat (map escape_char s) @ [DQ]"

fun join :: "string \<Rightarrow> string list \<Rightarrow> string" where
  "join sep [] = []"
| "join sep [x] = x"
| "join sep (x # xs) = x @ sep @ join sep xs"

fun dump :: "json \<Rightarrow> string" where
  "dump (JStr s) = dump_str s"
| "dump (JNum x) = repr_jnum x"
| "dump (JArr xs) = ''['' @ join '','' (map dump xs) @ '']''"
| "dump (JObj kvs) = ''{'' @ join '','' (map (\<lambda>(k, v). dump_str k @ '':'' @ dump v) kvs) @ ''}''"

section \<open>The document (lines 71--80)\<close>

definition asset_class_json :: "asset_class \<Rightarrow> json" where
  "asset_class_json ac =
     JObj [(''name'', JStr (ac_name ac)), (''symbol'', JStr (ac_symbol ac)), (''color'', JStr (ac_color ac))]"

text \<open>\<open>{"date": d, **prices[d]}\<close>: the display \<open>{"date": d}\<close> updated with the row.\<close>

definition row_dict :: "string \<Rightarrow> (asset_name, jnum) pydict \<Rightarrow> (string, json) pydict" where
  "row_dict d r = fold (\<lambda>(k, v) acc. dict_set acc k (JNum v)) r [(''date'', JStr d)]"

definition output_doc :: "datetime \<Rightarrow> asset_class list \<Rightarrow> (string \<times> (asset_name, jnum) pydict) list \<Rightarrow> json" where
  "output_doc now acs rows =
     JObj [(''updated_at'', JStr (isoformat now)),
           (''asset_classes'', JArr (map asset_class_json acs)),
           (''prices'', JArr (map (\<lambda>(d, r). JObj (row_dict d r)) rows))]"

section \<open>Decoding a JSON string body\<close>

definition hex_val :: "char \<Rightarrow> nat option" where
  "hex_val c =
     (let n = of_char c :: nat in
      if 48 \<le> n \<and> n \<le> 57 then Some (n - 48)
      else if 97 \<le> n \<and> n \<le> 102 then Some (n - 87)
      else if 65 \<le> n \<and> n \<le> 70 then Some (n - 55)
      else None)"

definition short_unescape :: "char \<Rightarrow> char option" where
  "short_unescape e =
     (if e = DQ then Some DQ else if e = BSL then Some BSL
      else if e = CHR ''n'' then Some (char_of (10::nat)) else if e = CHR ''r'' then Some (char_of (13::nat))
      else if e = CHR ''t'' then Some (char_of (9::nat)) else if e = CHR ''b'' then Some (char_of (8::nat))
      else if e = CHR ''f'' then Some (char_of (12::nat)) else None)"

definition hex4 :: "char \<Rightarrow> char \<Rightarrow> char \<Rightarrow> char \<Rightarrow> nat option" where
  "hex4 a b c d =
     (case (hex_val a, hex_val b, hex_val c, hex_val d) of
        (Some x1, Some x2, Some x3, Some x4) \<Rightarrow> Some (((x1 * 16 + x2) * 16 + x3) * 16 + x4)
      | _ \<Rightarrow> None)"

function unescape :: "string \<Rightarrow> string option" where
  "unescape [] = Some []"
| "unescape (c # cs) =
     (if c \<noteq> BSL then map_option (Cons c) (unescape cs)
      else case cs of
        [] \<Rightarrow> None
      | e # rest \<Rightarrow>
          (if e = CHR ''u'' then
             (case rest of
                h1 # h2 # h3 # h4 # rest' \<Rightarrow>
                  (case hex4 h1 h2 h3 h4 of
                     Some v \<Rightarrow> if v < 256 then map_option (Cons (char_of v)) (unescape rest') else None
                   | None \<Rightarrow> None)
              | _ \<Rightarrow> None)
           else (case short_unescape e of
                   Some c' \<Rightarrow> map_option (Cons c') (unescape rest)
                 | None \<Rightarrow> None)))"
  by pat_completeness auto
termination
  by (relation "measure length") auto

text \<open>A printable ASCII character, \<open>' '..'~'\<close>.\<close>

definition printable :: "char \<Rightarrow> bool" where
  "printable c \<longleftrightarrow> (32::nat) \<le> of_char c \<and> of_char c \<le> (126::nat)"

lemmas json_simps [job_simps] = hex_char_def escape_char_def dump_str_def asset_class_json_def
  row_dict_def output_doc_def

section \<open>Lemmas\<close>

lemma hex_val_hex_char [simp]: "d < 16 \<Longrightarrow> hex_val (hex_char d) = Some d"
  by (simp add: hex_val_def hex_char_def Let_def)

lemma hex_val_zero [simp]: "hex_val (CHR ''0'') = Some 0"
  by (simp add: hex_val_def)

lemma of_char_eqD: "of_char c = (k::nat) \<Longrightarrow> c = char_of k"
  by (metis char_of_char)

lemma hex4_escape: "n < 256 \<Longrightarrow> hex4 (CHR ''0'') (CHR ''0'') (hex_char (n div 16)) (hex_char (n mod 16)) = Some n"
proof -
  assume "n < 256"
  then have "n div 16 < 16" by simp
  then show ?thesis by (simp add: hex4_def)
qed

lemma unescape_escape_char: "unescape (escape_char c @ rest) = map_option (Cons c) (unescape rest)"
proof -
  define n where "n = (of_char c :: nat)"
  have n256: "n < 256" by (simp add: n_def)
  have cn: "c = char_of n" by (simp add: n_def)
  show ?thesis
  proof (cases "c = DQ \<or> c = BSL \<or> n \<in> {10, 13, 9, 8, 12}")
    case True
    then show ?thesis
      by (auto simp: escape_char_def short_unescape_def n_def dest: of_char_eqD)
  next
    case False
    show ?thesis
    proof (cases "n < 32 \<or> 126 < n")
      case True
      with False have e: "escape_char c = [BSL, CHR ''u'', CHR ''0'', CHR ''0'', hex_char (n div 16), hex_char (n mod 16)]"
        by (auto simp: escape_char_def n_def Let_def)
      show ?thesis using hex4_escape [OF n256] n256 by (simp add: e cn [symmetric])
    next
      case False': False
      with False have e: "escape_char c = [c]"
        by (auto simp: escape_char_def n_def Let_def)
      from False have "c \<noteq> BSL" by simp
      then show ?thesis by (simp add: e)
    qed
  qed
qed

lemma escape_char_plain:
  "printable c \<Longrightarrow> c \<noteq> DQ \<Longrightarrow> c \<noteq> BSL \<Longrightarrow> escape_char c = [c]"
  by (auto simp: escape_char_def printable_def Let_def)

lemma concat_escape_id: "(\<And>c. c \<in> set s \<Longrightarrow> escape_char c = [c]) \<Longrightarrow> concat (map escape_char s) = s"
  by (induction s) auto

lemma escape_isoformat: "concat (map escape_char (isoformat t)) = isoformat t"
proof -
  have "escape_char c = [c]" if "c \<in> set (isoformat t)" for c
  proof -
    from that
    have "((48::nat) \<le> of_char c \<and> of_char c \<le> (57::nat)) \<or> c \<in> {CHR ''-'', CHR ''T'', CHR '':'', CHR ''.''}"
      by (rule isoformat_chars)
    then show "escape_char c = [c]"
    proof
      assume d: "(48::nat) \<le> of_char c \<and> of_char c \<le> (57::nat)"
      then have "c \<noteq> DQ" "c \<noteq> BSL" by auto
      with d show ?thesis by (intro escape_char_plain) (simp_all add: printable_def)
    qed (auto simp: escape_char_def)
  qed
  then show ?thesis by (rule concat_escape_id)
qed

lemma append_DQ_cancel:
  "DQ \<notin> set a \<Longrightarrow> DQ \<notin> set b \<Longrightarrow> a @ DQ # x = b @ DQ # y \<Longrightarrow> a = b"
proof (induction a arbitrary: b)
  case Nil
  then show ?case by (cases b) auto
next
  case (Cons c a)
  then show ?case by (cases b) auto
qed

lemma isoformat_no_DQ: "DQ \<notin> set (isoformat t)"
  using isoformat_chars [of DQ t] by auto

lemma dump_output_doc_split:
  "dump (output_doc t acs rows) =
     (''{'' @ dump_str ''updated_at'' @ '':'' @ [DQ]) @ isoformat t @ DQ #
     ('','' @ join '','' (map (\<lambda>(k, v). dump_str k @ '':'' @ dump v)
        [(''asset_classes'', JArr (map asset_class_json acs)),
         (''prices'', JArr (map (\<lambda>(d, r). JObj (row_dict d r)) rows))]) @ ''}'')"
  by (simp add: output_doc_def dump_str_def escape_isoformat)

lemma output_doc_clock_inj:
  "dump (output_doc t1 acs rows) = dump (output_doc t2 acs rows) \<Longrightarrow> isoformat t1 = isoformat t2"
  by (rule append_DQ_cancel [OF isoformat_no_DQ isoformat_no_DQ]) (simp add: dump_output_doc_split)

text \<open>
  The string encoder of \<open>json.dump\<close> is inverted by a JSON string
  decoder: every string the program writes (names, symbols, colours, dates)
  reads back unchanged.
\<close>

lemma unescape_escape: "unescape (concat (map escape_char s)) = Some s"
  by (induction s) (simp_all add: unescape_escape_char)

lemma printable_digit: "(48::nat) \<le> of_char c \<and> of_char c \<le> (57::nat) \<Longrightarrow> printable c"
  by (simp add: printable_def)

lemma hex_char_printable: "d < 16 \<Longrightarrow> printable (hex_char d)"
  by (simp add: printable_def hex_char_def)

lemma escape_char_printable: "x \<in> set (escape_char c) \<Longrightarrow> printable x"
proof -
  assume x: "x \<in> set (escape_char c)"
  have "(of_char c :: nat) < 256" by simp
  then have "(of_char c :: nat) div 16 < 16"
    using less_mult_imp_div_less [of "of_char c" 16 16] by simp
  with x show ?thesis
    by (auto simp: escape_char_def Let_def hex_char_printable split: if_splits)
       (auto simp: printable_def)
qed

lemma repr_dec4_printable: "x \<in> set (repr_dec4 n) \<Longrightarrow> printable x"
  by (auto simp: repr_dec4_def Let_def printable_def split: if_splits
           dest!: zpad_chars strip_zeros_digits_chars)

lemma repr_jnum_printable: "x \<in> set (repr_jnum j) \<Longrightarrow> printable x"
proof (cases j)
  case (Dec4 n)
  then show "x \<in> set (repr_jnum j) \<Longrightarrow> printable x" by (simp add: repr_dec4_printable)
qed (auto simp: printable_def split: if_splits)

lemma mem_join: "x \<in> set (join sep xs) \<Longrightarrow> x \<in> set sep \<or> (\<exists>y \<in> set xs. x \<in> set y)"
  by (induction sep xs rule: join.induct) auto

lemma dump_str_printable: "x \<in> set (dump_str s) \<Longrightarrow> printable x"
  by (auto simp: dump_str_def printable_def dest: escape_char_printable)

text \<open>
  C11. With \<open>ensure_ascii\<close>, everything \<open>json.dump\<close> writes (line 84) is
  printable ASCII: no control character and no byte above \<open>'~'\<close>, whatever
  the strings and numbers of the document.
\<close>

lemma dump_printable: "x \<in> set (dump j) \<Longrightarrow> printable x"
proof (induction j arbitrary: x rule: dump.induct)
  case (1 s)
  then show ?case by (simp add: dump_str_printable)
next
  case (2 n)
  then show ?case by (simp add: repr_jnum_printable)
next
  case (3 xs)
  from 3(2) have "x = CHR ''['' \<or> x = CHR '']'' \<or> x \<in> set (join '','' (map dump xs))"
    by auto
  then have "x \<in> {CHR ''['', CHR '']'', CHR '',''} \<or> (\<exists>y \<in> set xs. x \<in> set (dump y))"
    using mem_join [of x "'',''" "map dump xs"] by auto
  then show ?case using 3(1) by (auto simp: printable_def)
next
  case (4 kvs)
  have "x \<in> {CHR ''{'', CHR ''}'', CHR '','', CHR '':''} \<or>
        (\<exists>(k, v) \<in> set kvs. x \<in> set (dump_str k) \<or> x \<in> set (dump v))"
  proof -
    let ?ys = "map (\<lambda>(k, v). dump_str k @ '':'' @ dump v) kvs"
    from 4(2) have "x = CHR ''{'' \<or> x = CHR ''}'' \<or> x \<in> set (join '','' ?ys)"
      by auto
    then show ?thesis using mem_join [of x "'',''" ?ys] by fastforce
  qed
  then show ?case using 4(1) by (auto simp: printable_def dest: dump_str_printable)
qed

theorem dump_printable_witness:
  "BSL \<in> set (dump (JStr [char_of (10::nat)])) \<and> printable BSL"
proof -
  have m: "BSL \<in> set (dump (JStr [char_of (10::nat)]))" by (simp add: job_simps)
  from dump_printable [OF m] m show ?thesis by simp
qed

lemma row_dict_fresh:
  "dict_wf r \<Longrightarrow> ''date'' \<notin> set (dict_keys r) \<Longrightarrow>
   row_dict d r = (''date'', JStr d) # map (\<lambda>(k, v). (k, JNum v)) r"
  using fold_dict_set_fresh [of r "[(''date'', JStr d)]" JNum]
  by (auto simp: row_dict_def dict_wf_def)

end
