(* ===== verification/Job.thy ===== *)
theory Job
  imports Extract Json
begin

text \<open>
  The function \<open>main\<close> of \<^verbatim>\<open>src/fetch_data.py\<close> (lines 42--88) and the
  script entry \<open>exit(main())\<close> (lines 91--92). The outside world is an input
  record: the two readings of the wall clock (\<open>datetime.now()\<close> at lines 44
  and 74), the provider's answer to \<open>yf.download\<close> (a frame, or the exception
  it raised) and the directory of the script. A run produces the list of its
  observable effects in order (console lines, the download request, the file
  write) and an outcome: the returned exit code or the exception that escaped.
\<close>

record world =
  w_now :: datetime
  w_now2 :: datetime
  w_response :: "error + raw_frame"
  w_script_dir :: string

datatype effect =
    Print string
  | Download "symbol list" datetime datetime
  | WriteFile string string

datatype outcome = Return int | Raise error

text \<open>\<open>exit(main())\<close>: the returned code; an uncaught exception exits with 1.\<close>

fun exit_status :: "outcome \<Rightarrow> int" where
  "exit_status (Return n) = n"
| "exit_status (Raise e) = 1"

text \<open>\<open>Path(__file__).parent / "data.json"\<close> (line 82).\<close>

definition output_path :: "string \<Rightarrow> string" where
  "output_path dir = dir @ ''/data.json''"

definition job_main :: "world \<Rightarrow> effect list \<times> outcome" where
  "job_main w =
     (let end_date = w_now w in
      case start_date_of end_date of
        Inl e \<Rightarrow> ([], Raise e)
      | Inr start_date \<Rightarrow>
          let msg1 = Print (''Fetching data from '' @ ymd_string start_date @ '' to '' @ ymd_string end_date);
              dl = Download symbols start_date end_date
          in case w_response w of
               Inl e \<Rightarrow> ([msg1, dl], Raise e)
             | Inr data \<Rightarrow>
                 if frame_empty data
                 then ([msg1, dl, Print ''ERROR: No data returned from yfinance''], Return 1)
                 else case select_closes data of
                   Inl e \<Rightarrow> ([msg1, dl], Raise e)
                 | Inr closes \<Rightarrow>
                     case extract_prices ETFS closes symbols of
                       Inl e \<Rightarrow> ([msg1, dl], Raise e)
                     | Inr prices \<Rightarrow>
                         case sorted_prices prices of
                           Inl e \<Rightarrow> ([msg1, dl], Raise e)
                         | Inr rows \<Rightarrow>
                             case asset_classes of
                               Inl e \<Rightarrow> ([msg1, dl], Raise e)
                             | Inr acs \<Rightarrow>
                                 let path = output_path (w_script_dir w);
                                     wr = WriteFile path (dump (output_doc (w_now2 w) acs rows));
                                     msg2 = Print (''Wrote '' @ show_nat (length rows) @ '' days of data to '' @ path)
                                 in case sorted_dates prices of
                                      [] \<Rightarrow> ([msg1, dl, wr, msg2], Raise IndexError)
                                    | d0 # _ \<Rightarrow>
                                        ([msg1, dl, wr, msg2,
                                          Print (''Date range: '' @ d0 @ '' to '' @ last (sorted_dates prices))],
                                         Return 0))"

definition run_script :: "world \<Rightarrow> effect list \<times> int" where
  "run_script w = (let (effs, out) = job_main w in (effs, exit_status out))"

lemmas job_defs [job_simps] = job_main_def run_script_def output_path_def

end
