(* ===== verification/JsonRead.thy ===== *)
theory JsonRead
  imports Json
begin

text \<open>
  A strict reader for the JSON that \<^verbatim>\<open>src/fetch_data.py\<close> writes, the
  consumer's side of line 84: strings with the escapes of RFC 8259 (raw control
  characters refused), numbers in RFC 8259 syntax with at most four decimals
  (no leading zeros; \<open>NaN\<close> and \<open>Infinity\<close> are not numbers), arrays and
  objects, no whitespace. The reader is a recursion with fuel that reports
  running out (\<open>OutOfFuel\<close>) apart from rejecting its input (\<open>Malformed\<close>);
  \<open>parse_json\<close> gives it twice the length of the input plus one, which is
  always enough (C30). Every document \<open>json.dump\<close> prints without infinities or
  NaN reads back as itself (C29), and so do its strings (C10) and numbers (C9);
  a document with an infinity or NaN is rejected (C34). The schema of the
  specification's \<open>OutputDocument\<close> is the predicate \<open>doc_schema\<close>.
\<close>

datatype read_error = OutOfFuel | Malformed

definition is_digit :: "char \<Rightarrow> bool" where
  "is_digit c \<longleftrightarrow> (48::nat) \<le> of_char c \<and> of_char c \<le> (57::nat)"

fun scan_str :: "string \<Rightarrow> (string \<times> string) option" where
  "scan_str [] = None"
| "scan_str (c # cs) =
     (if c = DQ then Some ([], cs)
      else if (of_char c :: nat) < 32 then None
      else if c = BSL then
        (case cs of
           [] \<Rightarrow> None
         | e # cs' \<Rightarrow> map_option (apfst (\<lambda>r. BSL # e # r)) (scan_str cs'))
      else map_option (apfst (Cons c)) (scan_str cs))"

definition read_str :: "string \<Rightarrow> (string \<times> string) option" where
  "read_str s =
     (case s of
        c # cs \<Rightarrow>
          if c = DQ then
            (case scan_str cs of
               None \<Rightarrow> None
             | Some (raw, rest) \<Rightarrow> map_option (\<lambda>str. (str, rest)) (unescape raw))
          else None
      | [] \<Rightarrow> None)"

definition num_char :: "char \<Rightarrow> bool" where
  "num_char c \<longleftrightarrow> is_digit c \<or> c = CHR ''-'' \<or> c = CHR ''.''"

definition num_syntax :: "string \<Rightarrow> bool" where
  "num_syntax tok =
     (let u = (case tok of c # t \<Rightarrow> if c = CHR ''-'' then t else tok | [] \<Rightarrow> []);
          ip = takeWhile is_digit u; after = dropWhile is_digit u
      in ip \<noteq> [] \<and> (ip = ''0'' \<or> hd ip \<noteq> CHR ''0'') \<and>
         (after = [] \<or>
          (hd after = CHR ''.'' \<and> tl after \<noteq> [] \<and> list_all is_digit (tl after) \<and> length (tl after) \<le> 4)))"

definition read_num :: "string \<Rightarrow> read_error + (json \<times> string)" where
  "read_num s =
     (let tok = takeWhile num_char s; rest = dropWhile num_char s
      in if num_syntax tok then Inr (JNum (Dec4 (read_dec4 tok)), rest) else Inl Malformed)"

fun pv :: "nat \<Rightarrow> string \<Rightarrow> read_error + (json \<times> string)"
and pelems :: "nat \<Rightarrow> string \<Rightarrow> read_error + (json list \<times> string)"
and pmembers :: "nat \<Rightarrow> string \<Rightarrow> read_error + ((string \<times> json) list \<times> string)" where
  "pv 0 s = Inl OutOfFuel"
| "pv (Suc f) s =
     (case s of
        [] \<Rightarrow> Inl Malformed
      | c # cs \<Rightarrow>
          if c = DQ then
            (case read_str s of None \<Rightarrow> Inl Malformed | Some (str, r) \<Rightarrow> Inr (JStr str, r))
          else if c = CHR ''['' then
            (if take 1 cs = '']'' then Inr (JArr [], drop 1 cs)
             else case pelems f cs of Inl e \<Rightarrow> Inl e | Inr (xs, r) \<Rightarrow> Inr (JArr xs, r))
          else if c = CHR ''{'' then
            (if take 1 cs = ''}'' then Inr (JObj [], drop 1 cs)
             else case pmembers f cs of Inl e \<Rightarrow> Inl e | Inr (kvs, r) \<Rightarrow> Inr (JObj kvs, r))
          else read_num s)"
| "pelems 0 s = Inl OutOfFuel"
| "pelems (Suc f) s =
     (case pv f s of
        Inl e \<Rightarrow> Inl e
      | Inr (v, r) \<Rightarrow>
          (case r of
             d # r' \<Rightarrow>
               if d = CHR '','' then
                 (case pelems f r' of Inl e \<Rightarrow> Inl e | Inr (vs, r'') \<Rightarrow> Inr (v # vs, r''))
               else if d = CHR '']'' then Inr ([v], r')
               else Inl Malformed
           | [] \<Rightarrow> Inl Malformed))"
| "pmembers 0 s = Inl OutOfFuel"
| "pmembers (Suc f) s =
     (case read_str s of
        None \<Rightarrow> Inl Malformed
      | Some (k, r) \<Rightarrow>
          (case r of
             d # r1 \<Rightarrow>
               if d = CHR '':'' then
                 (case pv f r1 of
                    Inl e \<Rightarrow> Inl e
                  | Inr (v, r2) \<Rightarrow>
                      (case r2 of
                         d2 # r3 \<Rightarrow>
                           if d2 = CHR '','' then
                             (case pmembers f r3 of
                                Inl e \<Rightarrow> Inl e | Inr (kvs, r4) \<Rightarrow> Inr ((k, v) # kvs, r4))
                           else if d2 = CHR ''}'' then Inr ([(k, v)], r3)
                           else Inl Malformed
                       | [] \<Rightarrow> Inl Malformed))
               else Inl Malformed
           | [] \<Rightarrow> Inl Malformed))"

definition parse_json :: "string \<Rightarrow> json option" where
  "parse_json s = (case pv (2 * length s + 1) s of Inr (j, []) \<Rightarrow> Some j | _ \<Rightarrow> None)"

fun json_finite :: "json \<Rightarrow> bool" where
  "json_finite (JStr s) = True"
| "json_finite (JNum (Dec4 n)) = True"
| "json_finite (JNum _) = False"
| "json_finite (JArr xs) = list_all json_finite xs"
| "json_finite (JObj kvs) = list_all (\<lambda>(k, v). json_finite v) kvs"

section \<open>The shape of the output document\<close>

text \<open>
  The \<open>OutputDocument\<close> of the specification (section 3): an object with
  \<open>updated_at\<close> (a string), \<open>asset_classes\<close> (objects with string fields
  \<open>name\<close>, \<open>symbol\<close>, \<open>color\<close>) and \<open>prices\<close> (objects whose first field is
  \<open>date\<close>, a string, followed by distinct asset-class names with numbers).
\<close>

fun is_jstr :: "json \<Rightarrow> bool" where
  "is_jstr (JStr s) = True"
| "is_jstr _ = False"

fun is_jnum :: "json \<Rightarrow> bool" where
  "is_jnum (JNum x) = True"
| "is_jnum _ = False"

definition asset_ok :: "json \<Rightarrow> bool" where
  "asset_ok j =
     (case j of
        JObj kvs \<Rightarrow> map fst kvs = [''name'', ''symbol'', ''color''] \<and> list_all (\<lambda>(k, v). is_jstr v) kvs
      | _ \<Rightarrow> False)"

definition price_row_ok :: "json \<Rightarrow> bool" where
  "price_row_ok j =
     (case j of
        JObj ((k, v) # kvs) \<Rightarrow>
          k = ''date'' \<and> is_jstr v \<and> distinct (map fst kvs) \<and> ''date'' \<notin> set (map fst kvs) \<and>
          list_all (\<lambda>(k, v). is_jnum v) kvs
      | _ \<Rightarrow> False)"

definition doc_schema :: "json \<Rightarrow> bool" where
  "doc_schema j =
     (case j of
        JObj [(k1, u), (k2, JArr acs), (k3, JArr ps)] \<Rightarrow>
          k1 = ''updated_at'' \<and> k2 = ''asset_classes'' \<and> k3 = ''prices'' \<and> is_jstr u \<and>
          list_all asset_ok acs \<and> list_all price_row_ok ps
      | _ \<Rightarrow> False)"

section \<open>Termination: the fuel is enough\<close>

lemma map_option_apfst_Some:
  "map_option (apfst g) x = Some (a, b) \<longleftrightarrow> (\<exists>a'. x = Some (a', b) \<and> a = g a')"
  by (cases x) auto

lemma scan_str_shorter: "scan_str s = Some (raw, r) \<Longrightarrow> length r < length s"
  by (induction s arbitrary: raw r rule: scan_str.induct)
     (auto simp: map_option_apfst_Some split: if_splits list.splits, fastforce+)

lemma read_str_shorter: "read_str s = Some (x, r) \<Longrightarrow> length r < length s"
  by (auto simp: read_str_def split: list.splits if_splits option.splits dest!: scan_str_shorter)

lemma num_syntax_nonempty: "num_syntax tok \<Longrightarrow> tok \<noteq> []"
  by (auto simp: num_syntax_def)

lemma read_num_shorter: "read_num s = Inr (v, r) \<Longrightarrow> length r < length s"
proof -
  assume a: "read_num s = Inr (v, r)"
  then have ok: "num_syntax (takeWhile num_char s)" and r: "r = dropWhile num_char s"
    by (auto simp: read_num_def Let_def split: if_splits)
  from num_syntax_nonempty [OF ok] r show ?thesis
    by (cases s) (auto simp: le_imp_less_Suc length_dropWhile_le split: if_splits)
qed

lemma rem_shorter:
  "pv f s = Inr (v, r) \<Longrightarrow> length r < length s"
  "pelems f s = Inr (vs, r) \<Longrightarrow> length r < length s"
  "pmembers f s = Inr (kvs, r) \<Longrightarrow> length r < length s"
proof (induction f s and f s and f s arbitrary: v r and vs r and kvs r rule: pv_pelems_pmembers.induct)
  case (2 f s)
  then show ?case
    by (fastforce split: list.splits if_splits option.splits sum.splits
             dest!: read_str_shorter read_num_shorter)
next
  case (4 f s)
  then show ?case
    by (fastforce split: list.splits if_splits sum.splits)
next
  case (6 f s)
  then show ?case
    by (fastforce split: list.splits if_splits option.splits sum.splits dest!: read_str_shorter)
qed simp_all

lemma fuel_enough:
  "2 * length s < f \<Longrightarrow> pv f s \<noteq> Inl OutOfFuel"
  "2 * length s + 1 < f \<Longrightarrow> pelems f s \<noteq> Inl OutOfFuel"
  "2 * length s + 1 < f \<Longrightarrow> pmembers f s \<noteq> Inl OutOfFuel"
proof (induction f s and f s and f s rule: pv_pelems_pmembers.induct)
  case (2 f s)
  show ?case
  proof (cases s)
    case Nil
    then show ?thesis by simp
  next
    case (Cons c cs)
    have num: "read_num s \<noteq> Inl OutOfFuel" by (simp add: read_num_def Let_def)
    have arr: "pelems f cs \<noteq> Inl OutOfFuel" if "c = CHR ''[''" "take 1 cs \<noteq> '']''"
      using 2 Cons that by simp
    have obj: "pmembers f cs \<noteq> Inl OutOfFuel" if "c = CHR ''{''" "take 1 cs \<noteq> ''}''"
      using 2 Cons that by simp
    show ?thesis
      using Cons num arr obj
      by (auto split: option.splits sum.splits)
  qed
next
  case (4 f s)
  show ?case
  proof (cases "pv f s")
    case (Inl e)
    with 4 show ?thesis by simp
  next
    case (Inr vr)
    obtain v r where vr: "vr = (v, r)" by fastforce
    with Inr have lr: "length r < length s" by (simp add: rem_shorter)
    show ?thesis
    proof (cases r)
      case Nil
      with Inr vr show ?thesis by simp
    next
      case (Cons d r')
      have ar: "2 * length r' + 1 < f" using "4.prems" lr Cons by simp
      have "pelems f r' \<noteq> Inl OutOfFuel" if "d = CHR '',''"
        using "4.IH"(2) [OF Inr] vr Cons that ar by fastforce
      with Inr vr Cons show ?thesis by (auto split: sum.splits)
    qed
  qed
next
  case (6 f s)
  show ?case
  proof (cases "read_str s")
    case None
    then show ?thesis by simp
  next
    case (Some kr)
    obtain k r where kr: "kr = (k, r)" by fastforce
    with Some have lr: "length r < length s" by (simp add: read_str_shorter)
    show ?thesis
    proof (cases r)
      case Nil
      with Some kr show ?thesis by simp
    next
      case (Cons d r1)
      show ?thesis
      proof (cases "d = CHR '':''")
        case False
        with Some kr Cons show ?thesis by simp
      next
        case True
        have pv1: "pv f r1 \<noteq> Inl OutOfFuel" using 6 Some kr Cons True lr by simp
        show ?thesis
        proof (cases "pv f r1")
          case (Inl e)
          with Some kr Cons True pv1 show ?thesis by simp
        next
          case (Inr vr2)
          obtain v r2 where vr2: "vr2 = (v, r2)" by fastforce
          with Inr have l2: "length r2 < length r1" by (simp add: rem_shorter)
          show ?thesis
          proof (cases r2)
            case Nil
            with Some kr Cons True Inr vr2 show ?thesis by simp
          next
            case (Cons d2 r3)
            have ar: "2 * length r3 + 1 < f" using "6.prems" lr l2 Cons \<open>r = d # r1\<close> by simp
            have "pmembers f r3 \<noteq> Inl OutOfFuel" if "d2 = CHR '',''"
              using "6.IH"(2) [OF Some] kr \<open>r = d # r1\<close> True Inr vr2 Cons that ar by fastforce
            with Some kr \<open>r = d # r1\<close> True Inr vr2 Cons show ?thesis by (auto split: sum.splits)
          qed
        qed
      qed
    qed
  qed
qed simp_all

section \<open>Reading back what \<open>json.dump\<close> writes\<close>

lemma map_option_apfst_comp [simp]:
  "map_option (apfst f) (map_option (apfst g) x) = map_option (apfst (f \<circ> g)) x"
  by (cases x) auto

lemma hex_char_cases:
  "d < 16 \<Longrightarrow> ((48::nat) \<le> of_char (hex_char d) \<and> of_char (hex_char d) \<le> (57::nat)) \<or>
                ((97::nat) \<le> of_char (hex_char d) \<and> of_char (hex_char d) \<le> (102::nat))"
  by (simp add: hex_char_def)

lemma cons2_append: "(\<lambda>r. a # b # r) = (@) [a, b]"
  by (simp add: fun_eq_iff)

lemma scan_plain:
  "c \<noteq> DQ \<Longrightarrow> c \<noteq> BSL \<Longrightarrow> (32::nat) \<le> of_char c \<Longrightarrow>
   scan_str (c # rest) = map_option (apfst (Cons c)) (scan_str rest)"
  by simp

lemma scan_hex:
  "d < 16 \<Longrightarrow> scan_str (hex_char d # rest) = map_option (apfst (Cons (hex_char d))) (scan_str rest)"
proof -
  assume "d < 16"
  from hex_char_cases [OF this] have "hex_char d \<noteq> DQ" "hex_char d \<noteq> BSL" "(32::nat) \<le> of_char (hex_char d)"
    by (auto dest: arg_cong [where f = "of_char :: char \<Rightarrow> nat"])
  then show ?thesis by (rule scan_plain)
qed

lemma scan_BSL: "scan_str (BSL # e # r) = map_option (apfst (\<lambda>x. BSL # e # x)) (scan_str r)"
  by simp

lemma scan_zero: "scan_str (CHR ''0'' # r) = map_option (apfst (Cons (CHR ''0''))) (scan_str r)"
  by simp

lemma scan_escape_char:
  "scan_str (escape_char c @ rest) = map_option (apfst (\<lambda>r. escape_char c @ r)) (scan_str rest)"
proof -
  define n where "n = (of_char c :: nat)"
  have n256: "n < 256" by (simp add: n_def)
  show ?thesis
  proof (cases "c = DQ \<or> c = BSL \<or> n \<in> {10, 13, 9, 8, 12}")
    case True
    then show ?thesis by (auto simp: escape_char_def n_def comp_def cons2_append)
  next
    case False
    show ?thesis
    proof (cases "n < 32 \<or> 126 < n")
      case True
      with False have e: "escape_char c = [BSL, CHR ''u'', CHR ''0'', CHR ''0'', hex_char (n div 16), hex_char (n mod 16)]"
        by (auto simp: escape_char_def n_def Let_def)
      have "n div 16 < 16" using n256 less_mult_imp_div_less [of n 16 16] by simp
      moreover have "n mod 16 < 16" by simp
      ultimately show ?thesis
        by (simp del: scan_str.simps add: e scan_hex scan_BSL scan_zero comp_def)
    next
      case False': False
      with False have "escape_char c = [c]" by (auto simp: escape_char_def n_def Let_def)
      with False False' show ?thesis by (simp add: n_def comp_def)
    qed
  qed
qed

lemma scan_escape:
  "scan_str (concat (map escape_char s) @ DQ # rest) = Some (concat (map escape_char s), rest)"
  by (induction s) (simp_all add: scan_escape_char comp_def)

lemma read_str_dump_str_at: "read_str (dump_str s @ rest) = Some (s, rest)"
  by (simp add: read_str_def dump_str_def scan_escape unescape_escape)

text \<open>
  C10. Every string \<open>json.dump\<close> writes (line 84) is a valid JSON string
  literal that reads back as the original, whatever follows it.
\<close>

theorem read_str_dump_str: "read_str (dump_str s @ rest) = Some (s, rest)"
  by (simp add: read_str_def dump_str_def scan_escape unescape_escape)

lemma digits_is_digit: "(48::nat) \<le> of_char c \<and> of_char c \<le> (57::nat) \<Longrightarrow> is_digit c"
  by (simp add: is_digit_def)

lemma repr_dec4_split:
  "repr_dec4 n = (if n < 0 then ''-'' else []) @ show_nat (nat \<bar>n\<bar> div 10000) @ CHR ''.'' #
     (if strip_zeros (digits_fixed 4 (nat \<bar>n\<bar> mod 10000)) = [] then ''0''
      else strip_zeros (digits_fixed 4 (nat \<bar>n\<bar> mod 10000)))"
  by (simp add: repr_dec4_def Let_def)

lemma num_syntax_repr: "num_syntax (repr_dec4 n)"
proof -
  define q where "q = nat \<bar>n\<bar> div 10000"
  define fp where "fp = (if strip_zeros (digits_fixed 4 (nat \<bar>n\<bar> mod 10000)) = [] then ''0''
      else strip_zeros (digits_fixed 4 (nat \<bar>n\<bar> mod 10000)))"
  have r: "repr_dec4 n = (if n < 0 then ''-'' else []) @ show_nat q @ CHR ''.'' # fp"
    by (simp add: repr_dec4_split q_def fp_def)
  have dq: "is_digit c" if "c \<in> set (show_nat q)" for c
    using zpad_chars [OF that] by (rule digits_is_digit)
  obtain c t where ct: "show_nat q = c # t" using zpad_nonempty by (cases "show_nat q") auto
  have "c \<noteq> CHR ''-''" using dq [of c] ct by (auto simp: is_digit_def)
  then have u: "(case repr_dec4 n of c # t \<Rightarrow> if c = CHR ''-'' then t else repr_dec4 n | [] \<Rightarrow> []) =
              show_nat q @ CHR ''.'' # fp"
    using r ct by simp
  have ip: "takeWhile is_digit (show_nat q @ CHR ''.'' # fp) = show_nat q"
    using dq by (simp add: takeWhile_append2 is_digit_def)
  have after: "dropWhile is_digit (show_nat q @ CHR ''.'' # fp) = CHR ''.'' # fp"
    using dq by (simp add: dropWhile_append2 is_digit_def)
  have fp: "fp \<noteq> []" "list_all is_digit fp" "length fp \<le> 4"
  proof -
    show "fp \<noteq> []" by (simp add: fp_def)
    show "list_all is_digit fp"
      by (auto simp: fp_def list_all_iff is_digit_def dest: strip_zeros_digits_chars)
    show "length fp \<le> 4"
      using length_strip_zeros [of "digits_fixed 4 (nat \<bar>n\<bar> mod 10000)"] by (simp add: fp_def)
  qed
  show ?thesis
    using u ip after fp zpad_nonempty [of 0 q] show_nat_no_leading_zero [of q]
    by (simp add: num_syntax_def Let_def)
qed

lemma repr_dec4_num_chars: "c \<in> set (repr_dec4 n) \<Longrightarrow> num_char c"
  by (auto simp: repr_dec4_split num_char_def is_digit_def split: if_splits
           dest: zpad_chars strip_zeros_digits_chars)


lemma read_num_repr_at:
  assumes "rest = [] \<or> \<not> num_char (hd rest)"
  shows "read_num (repr_dec4 n @ rest) = Inr (JNum (Dec4 n), rest)"
proof -
  have nr: "takeWhile num_char rest = []" "dropWhile num_char rest = rest"
    using assms by (cases rest; simp)+
  have "takeWhile num_char (repr_dec4 n @ rest) = repr_dec4 n"
    using repr_dec4_num_chars nr by (simp add: takeWhile_append2)
  moreover have "dropWhile num_char (repr_dec4 n @ rest) = rest"
    using repr_dec4_num_chars nr by (simp add: dropWhile_append2)
  ultimately show ?thesis
    by (simp add: read_num_def Let_def num_syntax_repr read_dec4_repr_dec4)
qed

text \<open>
  C9. The number \<open>json.dump\<close> writes for a rounded price (line 84) has the
  syntax of a JSON number (an optional sign, no leading zero, one to four
  decimals) and reads back as the same count of \<open>10^-4\<close> units.
\<close>

theorem repr_dec4_is_json_number: "num_syntax (repr_dec4 n) \<and> read_dec4 (repr_dec4 n) = n"
  using num_syntax_repr read_dec4_repr_dec4 by simp

lemma repr_jnum_nonempty: "repr_jnum x \<noteq> []"
  by (cases x) (auto simp: repr_dec4_split)

lemma dump_nonempty: "dump j \<noteq> []"
  by (cases j) (auto simp: dump_str_def repr_jnum_nonempty)

lemma dump_hd: "hd (dump j) \<noteq> CHR '']'' \<and> hd (dump j) \<noteq> CHR ''}''"
proof (cases j)
  case (JNum x)
  show ?thesis
  proof (cases x)
    case (Dec4 n)
    have "num_char (hd (repr_dec4 n))"
      using repr_dec4_num_chars [of "hd (repr_dec4 n)" n] repr_jnum_nonempty [of "Dec4 n"] by simp
    with JNum Dec4 show ?thesis by (auto simp: num_char_def is_digit_def)
  qed (simp_all add: JNum)
qed (simp_all add: dump_str_def)

lemma take1_dump: "take 1 (dump j @ rest) = [hd (dump j)]"
  using dump_nonempty [of j] by (cases "dump j") auto

lemma pelems_dump:
  assumes "xs \<noteq> []"
    and IH: "\<And>x f rest. x \<in> set xs \<Longrightarrow> 2 * length (dump x) < f \<Longrightarrow> rest = [] \<or> \<not> num_char (hd rest) \<Longrightarrow>
              pv f (dump x @ rest) = Inr (x, rest)"
    and "2 * length (join '','' (map dump xs)) + 1 < f"
  shows "pelems f (join '','' (map dump xs) @ CHR '']'' # rest) = Inr (xs, rest)"
  using assms
proof (induction xs arbitrary: f)
  case Nil
  then show ?case by simp
next
  case (Cons x xs)
  obtain f' where f: "f = Suc f'" using Cons.prems(3) by (cases f) auto
  show ?case
  proof (cases xs)
    case Nil
    have "pv f' (dump x @ CHR '']'' # rest) = Inr (x, CHR '']'' # rest)"
      using Cons.prems(2,3) Nil f by (simp add: num_char_def is_digit_def)
    with Nil f show ?thesis by simp
  next
    case (Cons y ys)
    let ?J = "join '','' (map dump xs)"
    have j: "join '','' (map dump (x # xs)) = dump x @ CHR '','' # ?J" using Cons by simp
    have "pv f' (dump x @ CHR '','' # ?J @ CHR '']'' # rest) = Inr (x, CHR '','' # ?J @ CHR '']'' # rest)"
      using "Cons.prems"(2,3) j f by (simp add: num_char_def is_digit_def)
    moreover have "pelems f' (?J @ CHR '']'' # rest) = Inr (xs, rest)"
      using "Cons.IH" [of f'] "Cons.prems"(2,3) Cons j f by simp
    ultimately show ?thesis using j f by simp
  qed
qed

lemma pmembers_dump:
  assumes "kvs \<noteq> []"
    and IH: "\<And>k v f rest. (k, v) \<in> set kvs \<Longrightarrow> 2 * length (dump v) < f \<Longrightarrow>
              rest = [] \<or> \<not> num_char (hd rest) \<Longrightarrow> pv f (dump v @ rest) = Inr (v, rest)"
    and "2 * length (join '','' (map (\<lambda>(k, v). dump_str k @ '':'' @ dump v) kvs)) + 1 < f"
  shows "pmembers f (join '','' (map (\<lambda>(k, v). dump_str k @ '':'' @ dump v) kvs) @ CHR ''}'' # rest) =
         Inr (kvs, rest)"
  using assms
proof (induction kvs arbitrary: f)
  case Nil
  then show ?case by simp
next
  case (Cons kv kvs)
  obtain k v where kv: "kv = (k, v)" by fastforce
  obtain f' where f: "f = Suc f'" using Cons.prems(3) by (cases f) auto
  show ?case
  proof (cases kvs)
    case Nil
    have "pv f' (dump v @ CHR ''}'' # rest) = Inr (v, CHR ''}'' # rest)"
      using Cons.prems(2,3) Nil f kv by (simp add: num_char_def is_digit_def)
    with Nil f kv show ?thesis by (simp add: read_str_dump_str_at [of k "CHR '':'' # dump v @ CHR ''}'' # rest", simplified])
  next
    case (Cons y ys)
    let ?J = "join '','' (map (\<lambda>(k, v). dump_str k @ '':'' @ dump v) kvs)"
    have j: "join '','' (map (\<lambda>(k, v). dump_str k @ '':'' @ dump v) (kv # kvs)) =
             dump_str k @ CHR '':'' # dump v @ CHR '','' # ?J" using Cons kv by simp
    have "pv f' (dump v @ CHR '','' # ?J @ CHR ''}'' # rest) = Inr (v, CHR '','' # ?J @ CHR ''}'' # rest)"
      by (rule "Cons.prems"(2) [of k v])
         (use "Cons.prems"(3) j f kv in \<open>simp_all add: num_char_def is_digit_def\<close>)
    moreover have "pmembers f' (?J @ CHR ''}'' # rest) = Inr (kvs, rest)"
    proof (rule "Cons.IH")
      show "kvs \<noteq> []" using Cons by simp
      show "pv f (dump v @ rest) = Inr (v, rest)"
        if "(k, v) \<in> set kvs" "2 * length (dump v) < f" "rest = [] \<or> \<not> num_char (hd rest)" for k v f rest
        using "Cons.prems"(2) [of k v f rest] that by simp
      show "2 * length ?J + 1 < f'" using "Cons.prems"(3) j f by simp
    qed
    moreover have "read_str (dump_str k @ CHR '':'' # dump v @ CHR '','' # ?J @ CHR ''}'' # rest) =
                   Some (k, CHR '':'' # dump v @ CHR '','' # ?J @ CHR ''}'' # rest)"
      by (rule read_str_dump_str_at)
    ultimately show ?thesis using j f kv by simp
  qed
qed

lemma hd_join_dump: "xs \<noteq> [] \<Longrightarrow> take 1 (join '','' (map dump xs) @ rest) = [hd (dump (hd xs))]"
proof -
  assume "xs \<noteq> []"
  then obtain x ys where xs: "xs = x # ys" by (cases xs) auto
  then obtain t where "join '','' (map dump xs) = dump x @ t" by (cases ys) auto
  with xs show ?thesis using take1_dump [of x "t @ rest"] by simp
qed

lemma hd_join_members:
  "kvs \<noteq> [] \<Longrightarrow> take 1 (join '','' (map (\<lambda>(k, v). dump_str k @ '':'' @ dump v) kvs) @ rest) = [DQ]"
proof -
  assume "kvs \<noteq> []"
  then obtain k v ys where kvs: "kvs = (k, v) # ys" by (cases kvs) auto
  then obtain t where "join '','' (map (\<lambda>(k, v). dump_str k @ '':'' @ dump v) kvs) = dump_str k @ t"
    by (cases ys) auto
  then show ?thesis by (simp add: dump_str_def)
qed

lemma pv_dump:
  "json_finite j \<Longrightarrow> 2 * length (dump j) < f \<Longrightarrow> rest = [] \<or> \<not> num_char (hd rest) \<Longrightarrow>
   pv f (dump j @ rest) = Inr (j, rest)"
proof (induction j arbitrary: f rest)
  case (JStr s)
  obtain f' where f: "f = Suc f'" using JStr.prems(2) by (cases f) auto
  obtain t where t: "dump_str s @ rest = DQ # t" by (simp add: dump_str_def)
  have "read_str (DQ # t) = Some (s, rest)" using read_str_dump_str_at [of s rest] t by simp
  with t f show ?case by simp
next
  case (JNum x)
  obtain n where x: "x = Dec4 n" using JNum.prems(1) by (cases x) auto
  obtain f' where f: "f = Suc f'" using JNum.prems(2) by (cases f) auto
  obtain c t where ct: "repr_dec4 n @ rest = c # t"
    using repr_jnum_nonempty [of "Dec4 n"] by (cases "repr_dec4 n") auto
  have "c \<in> set (repr_dec4 n)"
    using ct repr_jnum_nonempty [of "Dec4 n"] by (cases "repr_dec4 n") auto
  then have "num_char c" by (rule repr_dec4_num_chars)
  then have "c \<noteq> DQ" "c \<noteq> CHR ''[''" "c \<noteq> CHR ''{''" by (auto simp: num_char_def is_digit_def)
  moreover have "read_num (c # t) = Inr (JNum (Dec4 n), rest)"
    using read_num_repr_at [OF JNum.prems(3), of n] ct by simp
  ultimately show ?case using x f ct by simp
next
  case (JArr xs)
  obtain f' where f: "f = Suc f'" using JArr.prems(2) by (cases f) auto
  show ?case
  proof (cases "xs = []")
    case True
    with f show ?thesis by simp
  next
    case False
    have "take 1 (join '','' (map dump xs) @ CHR '']'' # rest) \<noteq> '']''"
      using hd_join_dump [OF False] dump_hd [of "hd xs"] by simp
    moreover have "pelems f' (join '','' (map dump xs) @ CHR '']'' # rest) = Inr (xs, rest)"
    proof (rule pelems_dump [OF False])
      show "pv g (dump x @ r) = Inr (x, r)"
        if "x \<in> set xs" "2 * length (dump x) < g" "r = [] \<or> \<not> num_char (hd r)" for x g r
        using JArr.IH [OF that(1)] JArr.prems(1) that by (simp add: list_all_iff)
      show "2 * length (join '','' (map dump xs)) + 1 < f'" using JArr.prems(2) f by simp
    qed
    ultimately show ?thesis using f by simp
  qed
next
  case (JObj kvs)
  obtain f' where f: "f = Suc f'" using JObj.prems(2) by (cases f) auto
  show ?case
  proof (cases "kvs = []")
    case True
    with f show ?thesis by simp
  next
    case False
    have "take 1 (join '','' (map (\<lambda>(k, v). dump_str k @ '':'' @ dump v) kvs) @ CHR ''}'' # rest) \<noteq> ''}''"
      using hd_join_members [OF False] by simp
    moreover have "pmembers f' (join '','' (map (\<lambda>(k, v). dump_str k @ '':'' @ dump v) kvs) @ CHR ''}'' # rest) =
                   Inr (kvs, rest)"
    proof (rule pmembers_dump [OF False])
      show "pv g (dump v @ r) = Inr (v, r)"
        if "(k, v) \<in> set kvs" "2 * length (dump v) < g" "r = [] \<or> \<not> num_char (hd r)" for k v g r
        using JObj.IH [OF that(1), of v] JObj.prems(1) that by (fastforce simp: list_all_iff)
      show "2 * length (join '','' (map (\<lambda>(k, v). dump_str k @ '':'' @ dump v) kvs)) + 1 < f'"
        using JObj.prems(2) f by simp
    qed
    ultimately show ?thesis using f by simp
  qed
qed

text \<open>
  C29. Every JSON document \<open>json.dump\<close> prints without an infinity or NaN is
  read back by the strict reader as the same document: the output is JSON.
\<close>

theorem parse_json_dump:
  assumes "json_finite j"
  shows "parse_json (dump j) = Some j"
  using pv_dump [OF assms, of "2 * length (dump j) + 1" "[]"] by (simp add: parse_json_def)

theorem parse_json_dump_witness:
  "json_finite (JObj [(''date'', JStr ''2024-01-02''), (''Large Cap'', JNum (Dec4 4501234))]) \<and>
   parse_json (dump (JObj [(''date'', JStr ''2024-01-02''), (''Large Cap'', JNum (Dec4 4501234))])) =
     Some (JObj [(''date'', JStr ''2024-01-02''), (''Large Cap'', JNum (Dec4 4501234))])"
proof -
  have f: "json_finite (JObj [(''date'', JStr ''2024-01-02''), (''Large Cap'', JNum (Dec4 4501234))])"
    by simp
  from parse_json_dump [OF f] f show ?thesis by simp
qed


section \<open>Rejection of non-finite numbers\<close>

lemma fuel_mono_Suc:
  "pv f s = Inr a \<Longrightarrow> pv (Suc f) s = Inr a"
  "pelems f s = Inr b \<Longrightarrow> pelems (Suc f) s = Inr b"
  "pmembers f s = Inr c \<Longrightarrow> pmembers (Suc f) s = Inr c"
proof (induction f s and f s and f s arbitrary: a and b and c rule: pv_pelems_pmembers.induct)
  case (2 f s)
  show ?case
  proof (cases s)
    case Nil
    with "2.prems" show ?thesis by simp
  next
    case (Cons ch cs)
    show ?thesis
    proof (cases "ch = DQ")
      case True
      with "2.prems" Cons show ?thesis by simp
    next
      case nd: False
      show ?thesis
      proof (cases "ch = CHR ''[''")
        case True
        show ?thesis
        proof (cases "take 1 cs = '']''")
          case True
          with "2.prems" Cons \<open>ch = CHR ''[''\<close> show ?thesis by simp
        next
          case False
          from "2.prems" Cons nd \<open>ch = CHR ''[''\<close> False obtain xs r where
            "pelems f cs = Inr (xs, r)" "a = (JArr xs, r)"
            by (auto split: sum.splits)
          with "2.IH"(1) [OF Cons nd \<open>ch = CHR ''[''\<close> False] Cons nd \<open>ch = CHR ''[''\<close> False
          show ?thesis by simp
        qed
      next
        case na: False
        show ?thesis
        proof (cases "ch = CHR ''{''")
          case True
          show ?thesis
          proof (cases "take 1 cs = ''}''")
            case True
            with "2.prems" Cons nd na \<open>ch = CHR ''{''\<close> show ?thesis by simp
          next
            case False
            from "2.prems" Cons nd na \<open>ch = CHR ''{''\<close> False obtain kvs r where
              "pmembers f cs = Inr (kvs, r)" "a = (JObj kvs, r)"
              by (auto split: sum.splits)
            with "2.IH"(2) [OF Cons nd na \<open>ch = CHR ''{''\<close> False] Cons nd na \<open>ch = CHR ''{''\<close> False
            show ?thesis by simp
          qed
        next
          case False
          with "2.prems" Cons nd na show ?thesis by simp
        qed
      qed
    qed
  qed
next
  case (4 f s)
  from "4.prems" obtain v r where pv: "pv f s = Inr (v, r)" by (auto split: sum.splits)
  have pv': "pv (Suc f) s = Inr (v, r)" by (rule "4.IH"(1) [OF pv])
  show ?case
  proof (cases r)
    case Nil
    with "4.prems" pv show ?thesis by simp
  next
    case (Cons d r')
    show ?thesis
    proof (cases "d = CHR '',''")
      case True
      from "4.prems" pv Cons True obtain vs r'' where
        el: "pelems f r' = Inr (vs, r'')" "b = (v # vs, r'')" by (auto split: sum.splits)
      have "pelems (Suc f) r' = Inr (vs, r'')"
        using "4.IH"(2) [OF pv] Cons True el(1) by blast
      with pv' Cons True el(2) show ?thesis by simp
    next
      case False
      with "4.prems" pv pv' Cons show ?thesis by simp
    qed
  qed
next
  case (6 f s)
  from "6.prems" obtain k r where rs: "read_str s = Some (k, r)" by (auto split: option.splits)
  from "6.prems" rs obtain r1 where r: "r = CHR '':'' # r1" by (auto split: list.splits if_splits)
  from "6.prems" rs r obtain v r2 where pv: "pv f r1 = Inr (v, r2)" by (auto split: sum.splits)
  have pv': "pv (Suc f) r1 = Inr (v, r2)" using "6.IH"(1) [OF rs] r pv by blast
  show ?case
  proof (cases r2)
    case Nil
    with "6.prems" rs r pv show ?thesis by simp
  next
    case (Cons d r3)
    show ?thesis
    proof (cases "d = CHR '',''")
      case True
      from "6.prems" rs r pv Cons True obtain kvs r4 where
        el: "pmembers f r3 = Inr (kvs, r4)" "c = ((k, v) # kvs, r4)" by (auto split: sum.splits)
      have "pmembers (Suc f) r3 = Inr (kvs, r4)"
        using "6.IH"(2) [OF rs] r pv Cons True el(1) by blast
      with rs r pv' Cons True el(2) show ?thesis by simp
    next
      case False
      with "6.prems" rs r pv pv' Cons show ?thesis by simp
    qed
  qed
qed simp_all

lemma fuel_mono: "pv f s = Inr a \<Longrightarrow> pv (f + k) s = Inr a"
proof (induction k)
  case 0
  then show ?case by simp
next
  case (Suc k)
  then show ?case by (metis add_Suc_right fuel_mono_Suc(1))
qed

lemma pv_dump_any:
  assumes "json_finite x" and "rest = [] \<or> \<not> num_char (hd rest)" and "pv f (dump x @ rest) = Inr a"
  shows "a = (x, rest)"
proof -
  have "pv (f + (2 * length (dump x) + 1)) (dump x @ rest) = Inr a" by (rule fuel_mono [OF assms(3)])
  moreover have "pv (f + (2 * length (dump x) + 1)) (dump x @ rest) = Inr (x, rest)"
    by (rule pv_dump [OF assms(1) _ assms(2)]) simp
  ultimately show ?thesis by simp
qed

lemma pv_fail_cases: "(\<exists>e. pv f s = Inl e) \<or> (\<exists>a. pv f s = Inr a)"
  by (cases "pv f s") auto

lemma pv_num_fail:
  assumes "\<not> json_finite (JNum x)"
  shows "\<exists>e. pv f (dump (JNum x) @ rest) = Inl e"
proof (cases f)
  case 0
  then show ?thesis by simp
next
  case (Suc g)
  from assms have "x = JNaN \<or> (\<exists>b. x = JInf b)" by (cases x) auto
  with Suc show ?thesis
    by (auto simp: read_num_def num_syntax_def num_char_def is_digit_def Let_def)
qed

lemma pelems_fail:
  assumes "\<exists>x \<in> set xs. \<not> json_finite x"
    and IH: "\<And>x f rest. x \<in> set xs \<Longrightarrow> \<not> json_finite x \<Longrightarrow> \<exists>e. pv f (dump x @ rest) = Inl e"
  shows "\<exists>e. pelems f (join '','' (map dump xs) @ CHR '']'' # rest) = Inl e"
  using assms
proof (induction xs arbitrary: f)
  case Nil
  then show ?case by simp
next
  case (Cons x xs)
  show ?case
  proof (cases f)
    case 0
    then show ?thesis by simp
  next
    case (Suc g)
    obtain sep t where st: "join '','' (map dump (x # xs)) @ CHR '']'' # rest = dump x @ sep # t"
      and sep: "sep = CHR '','' \<or> sep = CHR '']''"
      and tl: "xs \<noteq> [] \<Longrightarrow> sep = CHR '','' \<and> t = join '','' (map dump xs) @ CHR '']'' # rest"
      by (cases xs) auto
    show ?thesis
    proof (cases "json_finite x")
      case False
      then obtain e where "pv g (dump x @ sep # t) = Inl e"
        using "Cons.prems"(2) [of x g "sep # t"] by auto
      with Suc st show ?thesis by simp
    next
      case True
      with "Cons.prems"(1) have ne: "xs \<noteq> []" and bad: "\<exists>y \<in> set xs. \<not> json_finite y" by auto
      note tl' = tl [OF ne]
      show ?thesis
      proof (cases "pv g (dump x @ sep # t)")
        case (Inl e)
        with Suc st show ?thesis by simp
      next
        case (Inr a)
        have "a = (x, sep # t)"
          by (rule pv_dump_any [OF True _ Inr]) (use sep in \<open>auto simp: num_char_def is_digit_def\<close>)
        moreover have "\<exists>e. pelems g (join '','' (map dump xs) @ CHR '']'' # rest) = Inl e"
        proof (rule "Cons.IH" [OF bad])
          fix y h r assume "y \<in> set xs" "\<not> json_finite y"
          then show "\<exists>e. pv h (dump y @ r) = Inl e" using "Cons.prems"(2) [of y h r] by simp
        qed
        then obtain e where "pelems g (join '','' (map dump xs) @ CHR '']'' # rest) = Inl e" ..
        ultimately show ?thesis using Suc st Inr tl' by simp
      qed
    qed
  qed
qed

lemma pmembers_fail:
  assumes "\<exists>(k, v) \<in> set kvs. \<not> json_finite v"
    and IH: "\<And>k v f rest. (k, v) \<in> set kvs \<Longrightarrow> \<not> json_finite v \<Longrightarrow> \<exists>e. pv f (dump v @ rest) = Inl e"
  shows "\<exists>e. pmembers f (join '','' (map (\<lambda>(k, v). dump_str k @ '':'' @ dump v) kvs) @ CHR ''}'' # rest) = Inl e"
  using assms
proof (induction kvs arbitrary: f)
  case Nil
  then show ?case by simp
next
  case (Cons kv kvs)
  obtain k v where kv: "kv = (k, v)" by fastforce
  show ?case
  proof (cases f)
    case 0
    then show ?thesis by simp
  next
    case (Suc g)
    obtain sep t where st: "join '','' (map (\<lambda>(k, v). dump_str k @ '':'' @ dump v) (kv # kvs)) @ CHR ''}'' # rest =
          dump_str k @ CHR '':'' # dump v @ sep # t"
      and sep: "sep = CHR '','' \<or> sep = CHR ''}''"
      and tl: "kvs \<noteq> [] \<Longrightarrow> sep = CHR '','' \<and> t = join '','' (map (\<lambda>(k, v). dump_str k @ '':'' @ dump v) kvs) @ CHR ''}'' # rest"
      using kv by (cases kvs) auto
    have rs: "read_str (dump_str k @ CHR '':'' # dump v @ sep # t) = Some (k, CHR '':'' # dump v @ sep # t)"
      by (rule read_str_dump_str_at)
    show ?thesis
    proof (cases "json_finite v")
      case False
      then obtain e where "pv g (dump v @ sep # t) = Inl e"
        using "Cons.prems"(2) [of k v g "sep # t"] kv by auto
      with Suc st rs show ?thesis by simp
    next
      case True
      with "Cons.prems"(1) kv have ne: "kvs \<noteq> []" and bad: "\<exists>(k, v) \<in> set kvs. \<not> json_finite v" by auto
      note tl' = tl [OF ne]
      show ?thesis
      proof (cases "pv g (dump v @ sep # t)")
        case (Inl e)
        with Suc st rs show ?thesis by simp
      next
        case (Inr a)
        have "a = (v, sep # t)"
          by (rule pv_dump_any [OF True _ Inr]) (use sep in \<open>auto simp: num_char_def is_digit_def\<close>)
        moreover have "\<exists>e. pmembers g (join '','' (map (\<lambda>(k, v). dump_str k @ '':'' @ dump v) kvs) @ CHR ''}'' # rest) = Inl e"
        proof (rule "Cons.IH" [OF bad])
          fix k' v' h r assume "(k', v') \<in> set kvs" "\<not> json_finite v'"
          then show "\<exists>e. pv h (dump v' @ r) = Inl e" using "Cons.prems"(2) [of k' v' h r] by simp
        qed
        then obtain e where "pmembers g (join '','' (map (\<lambda>(k, v). dump_str k @ '':'' @ dump v) kvs) @ CHR ''}'' # rest) = Inl e" ..
        ultimately show ?thesis using Suc st rs Inr tl' by simp
      qed
    qed
  qed
qed

lemma pv_dump_fail: "\<not> json_finite j \<Longrightarrow> \<exists>e. pv f (dump j @ rest) = Inl e"
proof (induction j arbitrary: f rest)
  case (JStr s)
  then show ?case by simp
next
  case (JNum x)
  then show ?case by (rule pv_num_fail)
next
  case (JArr xs)
  show ?case
  proof (cases f)
    case 0
    then show ?thesis by simp
  next
    case (Suc g)
    from JArr.prems have bad: "\<exists>x \<in> set xs. \<not> json_finite x" by (auto simp: list_all_iff)
    then have ne: "xs \<noteq> []" by auto
    have "take 1 (join '','' (map dump xs) @ CHR '']'' # rest) \<noteq> '']''"
      using hd_join_dump [OF ne] dump_hd [of "hd xs"] by simp
    moreover have "\<exists>e. pelems g (join '','' (map dump xs) @ CHR '']'' # rest) = Inl e"
      by (rule pelems_fail [OF bad JArr.IH])
    ultimately show ?thesis using Suc by (auto split: sum.splits)
  qed
next
  case (JObj kvs)
  show ?case
  proof (cases f)
    case 0
    then show ?thesis by simp
  next
    case (Suc g)
    from JObj.prems have bad: "\<exists>(k, v) \<in> set kvs. \<not> json_finite v" by (auto simp: list_all_iff)
    then have ne: "kvs \<noteq> []" by auto
    have "take 1 (join '','' (map (\<lambda>(k, v). dump_str k @ '':'' @ dump v) kvs) @ CHR ''}'' # rest) \<noteq> ''}''"
      using hd_join_members [OF ne] by simp
    moreover have "\<exists>e. pmembers g (join '','' (map (\<lambda>(k, v). dump_str k @ '':'' @ dump v) kvs) @ CHR ''}'' # rest) = Inl e"
      by (rule pmembers_fail [OF bad]) (rule JObj.IH, auto)
    ultimately show ?thesis using Suc by (auto split: sum.splits)
  qed
qed


end
