(* ===== verification/Pipeline.thy ===== *)
theory Pipeline
  imports Job JsonRead
begin

text \<open>
  Concrete provider answers and worlds used by the witnesses of the root
  theory, and the facts about a whole run that several properties share:
  where a written file comes from (\<open>job_write_provenance\<close>), what a table
  entry is made of (\<open>extract_entry\<close>, \<open>row_entry_origin\<close>), and when the
  extraction of lines 59--67 cannot fail (\<open>extract_prices_total\<close>).
\<close>

section \<open>Examples\<close>

text \<open>
  Two trading days given in reverse order; on 2024-01-02 SPY closed at the
  double nearest to 450.1234 and IWM is \<open>None\<close>; all other cells are NaN.
\<close>

definition ex_closes :: close_frame where
  "ex_closes = \<lparr>f_index = [midnight 2024 1 3, midnight 2024 1 2],
     f_columns = [''SPY'', ''IWM'', ''EFA'', ''EEM'', ''REET'', ''AGG'', ''BNDX'', ''HYG'', ''BIL''],
     f_values = [[VFloat (PyFinite 451 0), VFloat (PyFinite 201 0), VFloat PyNaN, VFloat PyNaN,
                  VFloat PyNaN, VFloat PyNaN, VFloat PyNaN, VFloat PyNaN, VFloat PyNaN],
                 [VFloat (PyFinite 7918654595745081 (-44)), VNone, VFloat PyNaN, VFloat PyNaN,
                  VFloat PyNaN, VFloat PyNaN, VFloat PyNaN, VFloat PyNaN, VFloat PyNaN]]\<rparr>"

definition ex_table :: price_table where
  "ex_table = [(''2024-01-03'', [(''Large Cap'', Dec4 4510000), (''Small Cap'', Dec4 2010000)]),
               (''2024-01-02'', [(''Large Cap'', Dec4 4501234)])]"

definition ex_raw :: raw_frame where
  "ex_raw = \<lparr>f_index = f_index ex_closes, f_columns = map (Pair ''Close'') (f_columns ex_closes),
             f_values = f_values ex_closes\<rparr>"

definition ex_world :: world where
  "ex_world = \<lparr>w_now = \<lparr>dt_year = 2024, dt_month = 1, dt_day = 4, dt_hour = 9, dt_minute = 30,
                         dt_second = 0, dt_microsecond = 0\<rparr>,
               w_now2 = \<lparr>dt_year = 2024, dt_month = 1, dt_day = 4, dt_hour = 9, dt_minute = 30,
                         dt_second = 2, dt_microsecond = 0\<rparr>,
               w_response = Inr ex_raw, w_script_dir = ''/srv''\<rparr>"

definition ex_empty_world :: world where
  "ex_empty_world = ex_world\<lparr>w_response := Inr \<lparr>f_index = [], f_columns = f_columns ex_raw, f_values = []\<rparr>\<rparr>"

definition ex_dup_day :: close_frame where
  "ex_dup_day = ex_closes\<lparr>f_index := [midnight 2024 1 2, midnight 2024 1 2\<lparr>dt_hour := 16\<rparr>]\<rparr>"

definition ex_dup_ts :: close_frame where
  "ex_dup_ts = ex_closes\<lparr>f_index := [midnight 2024 1 2, midnight 2024 1 2]\<rparr>"

definition ex_open_only :: raw_frame where
  "ex_open_only = \<lparr>f_index = [midnight 2024 1 2], f_columns = [(''Open'', ''SPY'')],
                   f_values = [[VFloat (PyFinite 450 0)]]\<rparr>"

definition ex_inf_closes :: close_frame where
  "ex_inf_closes = ex_closes\<lparr>f_values := (VFloat (PyInf False) # tl (hd (f_values ex_closes))) # tl (f_values ex_closes)\<rparr>"

section \<open>Shared lemmas\<close>

lemma ex_extract: "extract_prices ETFS ex_closes symbols = Inr ex_table"
  by (simp add: ex_closes_def ex_table_def job_simps)

lemma ex_sorted: "sorted_prices ex_table = Inr (rev ex_table)"
  by (simp add: ex_table_def job_simps)

lemma extract_prices_wf:
  "extract_prices etfs c syms = Inr p \<Longrightarrow> dict_wf p \<and> (\<forall>(d, r) \<in> set p. dict_wf r)"
  unfolding extract_prices_def
  using build_prices_wf build_prices_rows_wf by fastforce

lemma extract_prices_keys:
  "extract_prices etfs c syms = Inr p \<Longrightarrow> set (dict_keys p) = ymd_string ` set (f_index c)"
  unfolding extract_prices_def by (drule build_prices_keys) simp

text \<open>A frame that is not empty keeps a non-empty index through the column selection.\<close>

lemma job_success_dates_nonempty:
  assumes "\<not> frame_empty data" and "select_closes data = Inr c" and "extract_prices etfs c syms = Inr p"
  shows "sorted_dates p \<noteq> []"
proof -
  from assms(1,2) have "f_index c \<noteq> []"
    by (simp add: frame_empty_def select_closes_index)
  with extract_prices_keys [OF assms(3)] have "set (dict_keys p) \<noteq> {}" by simp
  then have "dict_keys p \<noteq> []" by auto
  then show ?thesis by (metis length_sort length_0_conv sorted_dates_def)
qed

lemma start_date_ok:
  "6 \<le> dt_year (w_now w) \<Longrightarrow> start_date_of (w_now w) = Inr (midnight (dt_year (w_now w) - 5) 1 1)"
  by (simp add: start_date_of_Inr)

lemma extract_row_of:
  assumes "extract_prices etfs c syms = Inr p" and "t \<in> set (f_index c)"
    and "last_of_day (f_index c) (ymd_string t) = t"
  obtains r where "record_symbols etfs c t syms [] = Inr r" and "dict_get p (ymd_string t) = Some r"
proof -
  have bp: "build_prices etfs c syms (f_index c) [] = Inr p"
    using assms(1) by (simp add: extract_prices_def)
  obtain r where r: "record_symbols etfs c t syms [] = Inr r"
    using build_prices_entry_ok [OF bp assms(2)] by blast
  moreover have "dict_get p (ymd_string t) = Some r"
    using build_prices_get [OF bp, of "ymd_string t"] assms(2,3) r by simp
  ultimately show ?thesis by (rule that)
qed

lemma job_write_content:
  assumes "WriteFile p c \<in> set (fst (job_main w))"
  obtains acs rows where "c = dump (output_doc (w_now2 w) acs rows)"
    and "\<And>t p' c'. WriteFile p' c' \<in> set (fst (job_main (w\<lparr>w_now2 := t\<rparr>))) \<Longrightarrow>
                  c' = dump (output_doc t acs rows)"
  using assms
  by (auto simp: job_main_def Let_def asset_classes_Inr split: sum.splits if_splits list.splits)

lemma extract_entry:
  assumes "extract_prices etfs c syms = Inr p" and "dict_get p d = Some r"
  obtains t where "t \<in> set (f_index c)" "ymd_string t = d" "record_symbols etfs c t syms [] = Inr r"
proof -
  have bp: "build_prices etfs c syms (f_index c) [] = Inr p"
    using assms(1) by (simp add: extract_prices_def)
  have get: "dict_get p d = (if d \<in> ymd_string ` set (f_index c)
      then (case record_symbols etfs c (last_of_day (f_index c) d) syms [] of Inl e \<Rightarrow> None | Inr r \<Rightarrow> Some r)
      else dict_get [] d)"
    by (rule build_prices_get [OF bp])
  have d: "d \<in> ymd_string ` set (f_index c)"
  proof (rule ccontr)
    assume "d \<notin> ymd_string ` set (f_index c)"
    with get assms(2) show False by (simp add: dict_get_def)
  qed
  define t where "t = last_of_day (f_index c) d"
  have "filter (\<lambda>t. ymd_string t = d) (f_index c) \<noteq> []"
    using d by (auto simp: filter_empty_conv)
  then have "t \<in> set (filter (\<lambda>t. ymd_string t = d) (f_index c))"
    unfolding t_def last_of_day_def by (rule last_in_set)
  moreover from get assms(2) d have "record_symbols etfs c t syms [] = Inr r"
    by (simp add: t_def split: sum.splits)
  ultimately show ?thesis using that by auto
qed

lemma row_entry_origin:
  assumes "extract_prices etfs c syms = Inr p" and "dict_get p d = Some r" and "dict_get r n = Some v"
  shows "\<exists>s t x. s \<in> set syms \<and> dict_get etfs s = Some n \<and> frame_loc c s t = Inr (Scalar (VFloat x)) \<and>
                x \<noteq> PyNaN \<and> v = round4 x"
proof -
  obtain t where rs: "record_symbols etfs c t syms [] = Inr r"
    using extract_entry [OF assms(1,2)] by blast
  have "dict_get [] n = Some v \<or>
        (\<exists>s \<in> set syms. \<exists>x. dict_get etfs s = Some n \<and> frame_loc c s t = Inr (Scalar (VFloat x)) \<and>
           x \<noteq> PyNaN \<and> v = round4 x)"
    by (rule record_symbols_get [OF rs assms(3)])
  then show ?thesis by (auto simp: dict_get_def)
qed

lemma job_write_provenance:
  assumes "WriteFile path content \<in> set (fst (job_main w))"
  shows "\<exists>data closes p rows acs. w_response w = Inr data \<and> \<not> frame_empty data \<and>
           select_closes data = Inr closes \<and> extract_prices ETFS closes symbols = Inr p \<and>
           sorted_prices p = Inr rows \<and> asset_classes = Inr acs \<and>
           content = dump (output_doc (w_now2 w) acs rows)"
  using assms
  by (auto simp: job_main_def Let_def asset_classes_Inr split: sum.splits if_splits list.splits)

lemma table_row_in:
  assumes "extract_prices etfs c syms = Inr p" and "sorted_prices p = Inr rows" and "(d, r) \<in> set rows"
  shows "dict_get p d = Some r" and "dict_wf r"
proof -
  obtain rs where "sorted_prices p = Inr rs" "\<forall>(d, r) \<in> set rs. dict_get p d = Some r"
    using sorted_prices_Inr by blast
  with assms(2,3) show g: "dict_get p d = Some r" by auto
  have "dict_wf p" using extract_prices_wf [OF assms(1)] by simp
  with g have "(d, r) \<in> set p" by (simp add: dict_get_wf_iff)
  then show "dict_wf r" using extract_prices_wf [OF assms(1)] by auto
qed

lemma row_keys_names:
  assumes "extract_prices ETFS c symbols = Inr p" and "dict_get p d = Some r"
  shows "''date'' \<notin> set (dict_keys r)"
proof
  assume "''date'' \<in> set (dict_keys r)"
  then have "\<exists>v. dict_get r ''date'' = Some v" by (rule dict_get_in_keys_ex)
  then obtain v where "dict_get r ''date'' = Some v" ..
  from row_entry_origin [OF assms this] obtain s where "dict_get ETFS s = Some ''date''" by blast
  then show False by (auto simp: ETFS_list dict_get_def split: if_splits)
qed

lemma fst_comp_value [simp]: "fst \<circ> (\<lambda>(k, v). (k, g v)) = fst"
  by (auto simp: fun_eq_iff)

lemma fst_image_value [simp]: "fst ` (\<lambda>(k, v). (k, g v)) ` A = fst ` A"
  by (force simp: image_iff)

lemma finite_cell_value:
  assumes "frame_loc c s t = Inr (Scalar (VFloat x))" and "x \<noteq> PyNaN"
    and "\<forall>row \<in> set (f_values c). \<forall>b. VFloat (PyInf b) \<notin> set row"
  shows "\<exists>n. round4 x = Dec4 n"
proof -
  obtain row where "row \<in> set (f_values c)" "VFloat x \<in> set row"
    using frame_loc_scalar_in [OF assms(1)] by blast
  with assms(3) have "\<forall>b. x \<noteq> PyInf b" by auto
  with assms(2) show ?thesis by (cases x) auto
qed

lemma extract_prices_total:
  assumes "wf_frame c" and "distinct (f_index c)"
    and "\<forall>s \<in> set syms. count_list (f_columns c) s = 1 \<and> s \<in> set (dict_keys etfs)"
  shows "\<exists>p. extract_prices etfs c syms = Inr p"
proof -
  have "\<exists>r. record_symbols etfs c t syms [] = Inr r" if "t \<in> set (f_index c)" for t
  proof (rule record_symbols_total, intro ballI conjI)
    fix s assume "s \<in> set syms"
    with assms(3) have "count_list (f_columns c) s = 1" "s \<in> set (dict_keys etfs)" by auto
    moreover have "count_list (f_index c) t = 1" using count_list_distinct [OF assms(2) that] .
    ultimately show "\<exists>v. frame_loc c s t = Inr (Scalar v)" "s \<in> set (dict_keys etfs)"
      using frame_loc_scalar_exists [OF assms(1)] by blast+
  qed
  then show ?thesis unfolding extract_prices_def by (intro build_prices_total) blast
qed


end
