(* ===== verification/Protocol.thy ===== *)
theory Protocol
  imports Job
begin

text \<open>
  The order in which \<open>main\<close> (lines 42--88) acts on the outside world, as a
  state machine over its effects: it announces the window (line 47), asks
  the provider (line 50), and then either reports an empty answer (line 53)
  or writes the file (lines 83--84) and reports twice (lines 86--87); an
  exception may stop it after any step. \<open>io_step\<close> is one transition,
  \<open>io_run\<close> a sequence of them.
\<close>

datatype phase = Start | Announced | Requested | Reported_empty | Written | Counted | Ranged

inductive io_step :: "phase \<Rightarrow> effect \<Rightarrow> phase \<Rightarrow> bool" where
  step_announce: "io_step Start (Print m) Announced"
| step_request: "io_step Announced (Download syms a b) Requested"
| step_empty: "io_step Requested (Print m) Reported_empty"
| step_write: "io_step Requested (WriteFile p c) Written"
| step_count: "io_step Written (Print m) Counted"
| step_range: "io_step Counted (Print m) Ranged"

inductive io_run :: "phase \<Rightarrow> effect list \<Rightarrow> phase \<Rightarrow> bool" where
  run_nil: "io_run q [] q"
| run_cons: "io_step q e q' \<Longrightarrow> io_run q' es q'' \<Longrightarrow> io_run q (e # es) q''"

code_pred io_step .
code_pred io_run .

inductive_simps io_run_Nil [simp]: "io_run q [] q'"
inductive_simps io_run_Cons [simp]: "io_run q (e # es) q'"
inductive_simps io_step_simps [simp]: "io_step q e q'"
inductive_cases io_step_WriteE: "io_step q (WriteFile p c) q'"

fun is_write :: "effect \<Rightarrow> bool" where
  "is_write (WriteFile p c) = True"
| "is_write _ = False"

definition writes_left :: "phase \<Rightarrow> nat" where
  "writes_left q = (if q \<in> {Start, Announced, Requested} then 1 else 0)"

lemma io_step_writes:
  "io_step q e q' \<Longrightarrow> (if is_write e then 1 else 0) + writes_left q' \<le> writes_left q"
  by (induction rule: io_step.induct) (simp_all add: writes_left_def)

lemma io_run_writes: "io_run q es q' \<Longrightarrow> length (filter is_write es) \<le> writes_left q"
proof (induction rule: io_run.induct)
  case (run_nil q)
  then show ?case by simp
next
  case (run_cons q e q' es q'')
  from io_step_writes [OF run_cons.hyps(1)] run_cons.IH show ?case by (simp split: if_splits)
qed

lemma job_io_run: "\<exists>q. io_run Start (fst (job_main w)) q"
  by (auto simp: job_main_def Let_def split: sum.splits if_splits list.splits)


text \<open>
  C36. A run writes the output file at most once; by rule induction over the
  protocol, a phase after the write admits no further write.
\<close>

theorem run_writes_at_most_once: "length (filter is_write (fst (job_main w))) \<le> 1"
proof -
  obtain q where "io_run Start (fst (job_main w)) q" using job_io_run by blast
  from io_run_writes [OF this] show ?thesis by (simp add: writes_left_def)
qed

end
